theory Spec2Isabelle
  imports Main
begin

section \<open>Device type propagation over a TorchScript graph\<close>

text \<open>
  A shallow embedding of \<^verbatim>\<open>torch/csrc/jit/passes/device_type_analysis.cpp\<close>.
  The pass walks the nodes of a graph once and installs a device into the tensor
  type of node outputs. Values are shared between the node that defines them and the
  nodes that use them, so the types live in a heap indexed by value identity and every
  function of the pass threads that heap. A failed \<^verbatim>\<open>TORCH_INTERNAL_ASSERT\<close>, a
  thrown exception or a step whose behaviour is undefined is the left summand of the
  result.
\<close>

subsection \<open>Data model\<close>

text \<open>
  \<^verbatim>\<open>c10::Device\<close> is declared outside this file; the pass only compares devices for
  equality and stores them.
\<close>

datatype Device = CPU | CUDA nat

text \<open>
  The attributes of a tensor type other than its device (shape, dtype, strides) are
  opaque to the pass; \<^verbatim>\<open>withDevice\<close> copies them.
\<close>

type_synonym TensorProps = nat

datatype Type =
    TensorType "Device option" TensorProps
  | DeviceObjType
  | NoneType
  | OptionalType Type
  | UnionType "Type list"
  | ListType Type
  | TupleType "Type list"
  | OtherType string

fun is_TensorType :: "Type \<Rightarrow> bool" where
  "is_TensorType (TensorType dev props) = True"
| "is_TensorType _ = False"

fun device :: "Type \<Rightarrow> Device option" where
  "device (TensorType dev props) = dev"
| "device _ = None"

fun withDevice :: "Type \<Rightarrow> Device \<Rightarrow> Type" where
  "withDevice (TensorType dev props) d = TensorType (Some d) props"
| "withDevice t d = t"

fun containedTypes :: "Type \<Rightarrow> Type list" where
  "containedTypes (OptionalType t) = [t]"
| "containedTypes (UnionType ts) = ts"
| "containedTypes (ListType t) = [t]"
| "containedTypes (TupleType ts) = ts"
| "containedTypes _ = []"

datatype IValue = IVNone | IVDevice Device | IVString string | IVInt int | IVOther

text \<open>
  The object behind a \<^verbatim>\<open>Value*\<close>: its current type, and what \<^verbatim>\<open>toIValue\<close>
  answers for it. A \<^verbatim>\<open>Value*\<close> itself is the identity of that object.
\<close>

record Value_obj =
  vtype :: Type
  ivalue :: "IValue option"

type_synonym Value = nat

type_synonym Heap = "Value \<Rightarrow> Value_obj"

datatype Argument = Argument (arg_name: string) (arg_type: Type)

datatype Operator = Operator (schema_name: string) (arguments: "Argument list")

datatype NodeKind =
    prim_If | prim_Loop | prim_CallMethod | prim_CallFunction
  | prim_Constant | prim_ListConstruct | prim_ListUnpack
  | prim_other string
  | aten string
  | other_ns string string

fun is_aten :: "NodeKind \<Rightarrow> bool" where
  "is_aten (aten nm) = True"
| "is_aten _ = False"

record Node =
  kind :: NodeKind
  inputs :: "Value list"
  outputs :: "Value list"
  maybeOperator :: "Operator option"

type_synonym Block = "Node list"

record Graph =
  block :: Block

datatype error =
    ExpectingTensorType
  | ExpectedDevice Device Device
  | LoopCallNotHandled
  | NotSupportedIR
  | NoOperatorFound
  | IndexOutOfRange
  | UndefinedBehaviour

type_synonym 'a result = "error + 'a"

subsection \<open>Collaborators declared outside the file\<close>

text \<open>
  Modelled from the spec: \<^verbatim>\<open>toIValue\<close> (declared in \<^verbatim>\<open>ir/constants.h\<close>, not part of
  this file) is the static-value-resolution facility: it answers whether a value is a
  statically known constant and, if so, what it is. The answer is fixed by the node that
  defines the value, so it is a field of the value object that the pass never writes.
\<close>

definition toIValue :: "Value \<Rightarrow> Heap \<Rightarrow> IValue option" where
  "toIValue v h = ivalue (h v)"

definition setType :: "Value \<Rightarrow> Type \<Rightarrow> Heap \<Rightarrow> Heap" where
  "setType v t h = h(v := (h v)\<lparr>vtype := t\<rparr>)"

subsection \<open>The placement setter and the fan-out over a node's outputs\<close>

definition setDeviceType :: "Value \<Rightarrow> Device \<Rightarrow> bool \<Rightarrow> Heap \<Rightarrow> (bool \<times> Heap) result" where
  "setDeviceType val dev can_overwrite h =
     (let tensor_type = vtype (h val) in
      if \<not> is_TensorType tensor_type then Inl ExpectingTensorType
      else case device tensor_type of
          None \<Rightarrow> Inr (True, setType val (withDevice tensor_type dev) h)
        | Some cur \<Rightarrow>
            if cur \<noteq> dev then
              (if \<not> can_overwrite then Inl (ExpectedDevice dev cur)
               else Inr (True, setType val (withDevice tensor_type dev) h))
            else Inr (False, h))"

fun setReturnsToDevice_loop ::
  "Value list \<Rightarrow> Device \<Rightarrow> bool \<Rightarrow> Heap \<Rightarrow> (bool \<times> Heap) result" where
  "setReturnsToDevice_loop [] dev changed h = Inr (changed, h)"
| "setReturnsToDevice_loop (out # outs) dev changed h =
     (if \<not> is_TensorType (vtype (h out)) then setReturnsToDevice_loop outs dev changed h
      else case setDeviceType out dev False h of
          Inl e \<Rightarrow> Inl e
        | Inr (c, h') \<Rightarrow> setReturnsToDevice_loop outs dev (changed \<or> c) h')"

definition setReturnsToDevice :: "Node \<Rightarrow> Device \<Rightarrow> Heap \<Rightarrow> (bool \<times> Heap) result" where
  "setReturnsToDevice n dev h = setReturnsToDevice_loop (outputs n) dev False h"

subsection \<open>Unification over the tensor inputs\<close>

fun propWithNoDevice_loop :: "Value list \<Rightarrow> Device option \<Rightarrow> Heap \<Rightarrow> (Device option) result" where
  "propWithNoDevice_loop [] dev h = Inr dev"
| "propWithNoDevice_loop (inp # inps) dev h =
     (let tensor_type = vtype (h inp) in
      if \<not> is_TensorType tensor_type then propWithNoDevice_loop inps dev h
      else case dev of
          Some d \<Rightarrow>
            (case device tensor_type of
               Some cur_device \<Rightarrow>
                 if d = cur_device then propWithNoDevice_loop inps dev h
                 else Inl (ExpectedDevice d cur_device)
             | None \<Rightarrow> propWithNoDevice_loop inps dev h)
        | None \<Rightarrow> propWithNoDevice_loop inps (device tensor_type) h)"

definition propWithNoDevice :: "Node \<Rightarrow> Heap \<Rightarrow> (bool \<times> Heap) result" where
  "propWithNoDevice n h =
     (case propWithNoDevice_loop (inputs n) None h of
        Inl e \<Rightarrow> Inl e
      | Inr None \<Rightarrow> Inr (False, h)
      | Inr (Some d) \<Rightarrow> setReturnsToDevice n d h)"

subsection \<open>The default rule: explicit device argument first\<close>

function isDeviceArgumentType :: "Type \<Rightarrow> bool" where
  "isDeviceArgumentType t =
     (if list_ex isDeviceArgumentType (containedTypes t) then True
      else DeviceObjType = t)"
  by pat_completeness auto
termination
proof (relation "measure size")
  show "wf (measure (size :: Type \<Rightarrow> nat))" by simp
next
  fix t x :: Type
  assume "x \<in> set (containedTypes t)"
  then have "size x < size t"
    by (cases t) (auto simp: less_Suc_eq_le size_list_estimation')
  then show "(x, t) \<in> measure size" by simp
qed

declare isDeviceArgumentType.simps [simp del]

text \<open>
  The scan of \<^verbatim>\<open>defaultDeviceProp\<close>: \<open>i\<close> is the loop index, the first argument the
  formals from index \<open>i\<close> on. \<^verbatim>\<open>n->inputs().at(i)\<close> throws when the node has fewer
  inputs than the schema has formals. The index is an \<^verbatim>\<open>int\<close> in the source; a schema
  has far fewer than \<open>2^31\<close> formals, so it is a natural number here.
\<close>

fun defaultDeviceProp_loop ::
  "Argument list \<Rightarrow> nat \<Rightarrow> Node \<Rightarrow> Heap \<Rightarrow> (bool \<times> Heap) result" where
  "defaultDeviceProp_loop [] i n h = propWithNoDevice n h"
| "defaultDeviceProp_loop (argument # rest) i n h =
     (if isDeviceArgumentType (arg_type argument) then
        (if \<not> i < length (inputs n) then Inl IndexOutOfRange
         else case toIValue (inputs n ! i) h of
             None \<Rightarrow> Inr (False, h)
           | Some IVNone \<Rightarrow> defaultDeviceProp_loop rest (Suc i) n h
           | Some (IVDevice dev) \<Rightarrow> setReturnsToDevice n dev h
           | Some _ \<Rightarrow> Inr (False, h))
      else defaultDeviceProp_loop rest (Suc i) n h)"

text \<open>\<^verbatim>\<open>n->getOperator()\<close> throws when no operator is registered for the node.\<close>

definition defaultDeviceProp :: "Node \<Rightarrow> Heap \<Rightarrow> (bool \<times> Heap) result" where
  "defaultDeviceProp n h =
     (case maybeOperator n of
        None \<Rightarrow> Inl NoOperatorFound
      | Some op \<Rightarrow> defaultDeviceProp_loop (arguments op) 0 n h)"

subsection \<open>The pass driver\<close>

type_synonym PropRule = "Node \<Rightarrow> Heap \<Rightarrow> (bool \<times> Heap) result"

text \<open>The fields \<^verbatim>\<open>device_prop_registry_\<close> and \<^verbatim>\<open>graph_\<close> of the pass object.\<close>

record DeviceTypePropagationPass =
  device_prop_registry :: "(Operator \<times> PropRule) list"
  pass_graph :: Graph

text \<open>Both insertions into the registry are commented out in the source: it is empty.\<close>

definition buildRuleRegistry :: "(Operator \<times> PropRule) list" where
  "buildRuleRegistry = []"

definition new_DeviceTypePropagationPass :: "Graph \<Rightarrow> DeviceTypePropagationPass" where
  "new_DeviceTypePropagationPass graph =
     \<lparr>device_prop_registry = buildRuleRegistry, pass_graph = graph\<rparr>"

definition processAtenOps :: "DeviceTypePropagationPass \<Rightarrow> Node \<Rightarrow> Heap \<Rightarrow> (bool \<times> Heap) result" where
  "processAtenOps tp n h =
     (case maybeOperator n of
        None \<Rightarrow> Inl NoOperatorFound
      | Some op \<Rightarrow>
          (case map_of (device_prop_registry tp) op of
             Some rule \<Rightarrow> rule n h
           | None \<Rightarrow> defaultDeviceProp n h))"

definition processNode :: "DeviceTypePropagationPass \<Rightarrow> Node \<Rightarrow> Heap \<Rightarrow> (bool \<times> Heap) result" where
  "processNode tp n h =
     (if kind n = prim_If \<or> kind n = prim_Loop \<or> kind n = prim_CallMethod
         \<or> kind n = prim_CallFunction
      then Inl LoopCallNotHandled
      else
        let has_tensor_output = list_ex (\<lambda>v. is_TensorType (vtype (h v))) (outputs n) in
        if \<not> has_tensor_output then Inr (False, h)
        else if kind n = prim_Constant then Inr (False, h)
        else if kind n = prim_ListConstruct \<or> kind n = prim_ListUnpack then Inl NotSupportedIR
        else if is_aten (kind n) then processAtenOps tp n h
        else Inl NotSupportedIR)"

fun processBlock_loop ::
  "DeviceTypePropagationPass \<Rightarrow> Node list \<Rightarrow> bool \<Rightarrow> Heap \<Rightarrow> (bool \<times> Heap) result" where
  "processBlock_loop tp [] changed h = Inr (changed, h)"
| "processBlock_loop tp (n # ns) changed h =
     (case processNode tp n h of
        Inl e \<Rightarrow> Inl e
      | Inr (c, h') \<Rightarrow> processBlock_loop tp ns (changed \<or> c) h')"

definition processBlock :: "DeviceTypePropagationPass \<Rightarrow> Block \<Rightarrow> Heap \<Rightarrow> (bool \<times> Heap) result" where
  "processBlock tp blk h = processBlock_loop tp blk False h"

text \<open>
  \<^verbatim>\<open>run\<close>, lines 136 to 143 of the source. \<^verbatim>\<open>Graph::block\<close> and \<^verbatim>\<open>ArrayRef\<close> are declared
  outside this file: \<^verbatim>\<open>graph_->block()\<close> returns the block pointer by value, and the
  one-element constructor of \<^verbatim>\<open>ArrayRef\<close> keeps the address of its argument. So
  \<^verbatim>\<open>at::ArrayRef<Block*> blocks = graph_->block();\<close> refers to a temporary that is gone
  when the declaration ends, and the loop of line 139 reads through it: the behaviour of
  \<^verbatim>\<open>run\<close>, hence of the entry point, is undefined for every graph. The model gives such a
  call no result but the error value \<open>UndefinedBehaviour\<close>. What the body of the loop does
  to the block of the graph is \<open>processBlock\<close>; the results about the sweep are about it.
\<close>

definition run :: "DeviceTypePropagationPass \<Rightarrow> Heap \<Rightarrow> (bool \<times> Heap) result" where
  "run tp h = Inl UndefinedBehaviour"

definition DeviceTypePropagation :: "Graph \<Rightarrow> Heap \<Rightarrow> (bool \<times> Heap) result" where
  "DeviceTypePropagation graph h = run (new_DeviceTypePropagationPass graph) h"

subsection \<open>Notions used to state the results\<close>

text \<open>
  \<open>refines h h'\<close>: heap \<open>h'\<close> differs from \<open>h\<close> at most in that tensor types without a
  device have received one. \<open>fanout outs dev h\<close> is the heap in which every tensor-typed
  value among \<open>outs\<close> carries \<open>dev\<close>.
\<close>

definition refines :: "Heap \<Rightarrow> Heap \<Rightarrow> bool" where
  "refines h h' =
     (\<forall>v. ivalue (h' v) = ivalue (h v) \<and>
        (vtype (h' v) = vtype (h v) \<or>
         (\<exists>p d. vtype (h v) = TensorType None p \<and> vtype (h' v) = TensorType (Some d) p)))"

definition fanout :: "Value list \<Rightarrow> Device \<Rightarrow> Heap \<Rightarrow> Heap" where
  "fanout outs dev h =
     (\<lambda>v. if v \<in> set outs then (h v)\<lparr>vtype := withDevice (vtype (h v)) dev\<rparr> else h v)"

text \<open>
  The specification's "known placements of the tensor inputs": the placements carried by
  the tensor-typed values among \<open>inps\<close>, in input order (\<open>device\<close> is \<open>None\<close> on a type
  that is not a tensor type). The source computes no such list; the results compare its
  loop with it.
\<close>

definition known_devices :: "Value list \<Rightarrow> Heap \<Rightarrow> Device list" where
  "known_devices inps h = List.map_filter (\<lambda>v. device (vtype (h v))) inps"

text \<open>
  The graph is in static-single-assignment form and a block lists its nodes in
  execution order: a value is defined before it is used, so no input of a node is an
  output of that node or of a later node of the block. The IR builder guarantees this;
  the representation as a list of nodes over value identities does not, so results that
  need it assume it.
\<close>

fun defs_before_uses :: "Node list \<Rightarrow> bool" where
  "defs_before_uses [] = True"
| "defs_before_uses (n # ns) =
     (list_all (\<lambda>v. v \<notin> set (outputs n) \<and> list_all (\<lambda>m. v \<notin> set (outputs m)) ns) (inputs n)
      \<and> defs_before_uses ns)"

subsection \<open>Example values, operators and nodes\<close>

text \<open>
  A small heap and a few nodes over it, used to evaluate the pass on concrete inputs:
  tensors \<open>0\<close> (on the CPU), \<open>1\<close>, \<open>2\<close> and \<open>5\<close> (no device yet), the constants
  \<open>3\<close> (a device), \<open>4\<close> (none) and \<open>8\<close> (a string), a list of tensors \<open>6\<close>, and a
  device-typed value \<open>7\<close> that is not a constant.
\<close>

definition ex_heap :: Heap where
  "ex_heap = (\<lambda>_. \<lparr>vtype = OtherType ''int'', ivalue = Some (IVInt 1)\<rparr>)
     (0 := \<lparr>vtype = TensorType (Some CPU) 7, ivalue = None\<rparr>,
      1 := \<lparr>vtype = TensorType None 8, ivalue = None\<rparr>,
      2 := \<lparr>vtype = TensorType None 9, ivalue = None\<rparr>,
      3 := \<lparr>vtype = DeviceObjType, ivalue = Some (IVDevice (CUDA 0))\<rparr>,
      4 := \<lparr>vtype = NoneType, ivalue = Some IVNone\<rparr>,
      5 := \<lparr>vtype = TensorType None 7, ivalue = None\<rparr>,
      6 := \<lparr>vtype = ListType (TensorType None 0), ivalue = None\<rparr>,
      7 := \<lparr>vtype = DeviceObjType, ivalue = None\<rparr>,
      8 := \<lparr>vtype = OtherType ''str'', ivalue = Some (IVString ''cuda:0'')\<rparr>)"

definition add_op :: Operator where
  "add_op = Operator ''aten::add''
     [Argument ''self'' (TensorType None 0), Argument ''other'' (TensorType None 0)]"

definition to_op :: Operator where
  "to_op = Operator ''aten::to''
     [Argument ''self'' (TensorType None 0), Argument ''device'' (OptionalType DeviceObjType)]"

definition add_node :: Node where
  "add_node = \<lparr>kind = aten ''add'', inputs = [0, 1], outputs = [2], maybeOperator = Some add_op\<rparr>"

definition to_node :: "Value \<Rightarrow> Value \<Rightarrow> Node" where
  "to_node self dev_arg =
     \<lparr>kind = aten ''to'', inputs = [self, dev_arg], outputs = [5], maybeOperator = Some to_op\<rparr>"

definition list_construct_node :: Node where
  "list_construct_node =
     \<lparr>kind = prim_ListConstruct, inputs = [0, 1], outputs = [6], maybeOperator = None\<rparr>"

definition if_node :: Node where
  "if_node = \<lparr>kind = prim_If, inputs = [9], outputs = [], maybeOperator = None\<rparr>"

definition list_unpack_node :: Node where
  "list_unpack_node =
     \<lparr>kind = prim_ListUnpack, inputs = [6], outputs = [1, 2], maybeOperator = None\<rparr>"

definition two_device_op :: Operator where
  "two_device_op = Operator ''aten::two_device''
     [Argument ''self'' (TensorType None 0), Argument ''device'' DeviceObjType,
      Argument ''other_device'' DeviceObjType]"

definition two_device_node :: Node where
  "two_device_node =
     \<lparr>kind = aten ''two_device'', inputs = [0, 7, 3], outputs = [5],
      maybeOperator = Some two_device_op\<rparr>"

section \<open>Properties of the setter and the fan-out\<close>

lemma refinesD:
  assumes "refines h h'"
  shows "ivalue (h' v) = ivalue (h v)"
    and "vtype (h' v) = vtype (h v) \<or>
         (\<exists>p d. vtype (h v) = TensorType None p \<and> vtype (h' v) = TensorType (Some d) p)"
  using assms unfolding refines_def by blast+

lemma refines_refl: "refines h h"
  by (simp add: refines_def)

lemma refines_trans:
  assumes a: "refines h1 h2" and b: "refines h2 h3"
  shows "refines h1 h3"
  unfolding refines_def
proof (intro allI conjI)
  fix v
  show "ivalue (h3 v) = ivalue (h1 v)"
    using refinesD(1) [OF a, of v] refinesD(1) [OF b, of v] by simp
  show "vtype (h3 v) = vtype (h1 v) \<or>
        (\<exists>p d. vtype (h1 v) = TensorType None p \<and> vtype (h3 v) = TensorType (Some d) p)"
    using refinesD(2) [OF a, of v] refinesD(2) [OF b, of v] by (elim disjE exE conjE) simp_all
qed

lemma refines_is_TensorType:
  assumes "refines h h'"
  shows "is_TensorType (vtype (h' v)) = is_TensorType (vtype (h v))"
  using refinesD(2) [OF assms, of v] by (elim disjE exE conjE) simp_all

lemma refines_device_Some:
  assumes "refines h h'" and "device (vtype (h v)) = Some d"
  shows "vtype (h' v) = vtype (h v)"
  using refinesD(2) [OF assms(1), of v] assms(2) by (elim disjE exE conjE) simp_all

lemma refines_same_vtype:
  assumes a: "refines h h1" and b: "refines h1 h2" and e: "vtype (h2 v) = vtype (h v)"
  shows "vtype (h1 v) = vtype (h v)"
  using refinesD(2) [OF a, of v] refinesD(2) [OF b, of v] e
  by (elim disjE exE conjE) simp_all

lemma heap_eqI:
  assumes "\<And>v. vtype (h' v) = vtype (h v)" and "\<And>v. ivalue (h' v) = ivalue (h v)"
  shows "h' = (h :: Heap)"
proof (rule ext)
  fix v
  show "h' v = h v" using assms [of v] by (rule_tac Value_obj.equality) simp_all
qed

lemma withDevice_idem: "withDevice (withDevice t d) d = withDevice t d"
  by (cases t) simp_all

lemma withDevice_same: "device t = Some d \<Longrightarrow> withDevice t d = t"
  by (cases t) simp_all

lemma withDevice_nontensor: "\<not> is_TensorType t \<Longrightarrow> withDevice t d = t"
  by (cases t) simp_all

lemma device_nontensor: "\<not> is_TensorType t \<Longrightarrow> device t = None"
  by (cases t) simp_all

lemma refines_fanout:
  assumes "\<forall>v\<in>set outs. \<forall>q. device (vtype (h v)) = Some q \<longrightarrow> q = dev"
  shows "refines h (fanout outs dev h)"
  unfolding refines_def
proof (intro allI conjI)
  fix v
  show "ivalue (fanout outs dev h v) = ivalue (h v)" by (simp add: fanout_def)
  show "vtype (fanout outs dev h v) = vtype (h v) \<or>
        (\<exists>p d. vtype (h v) = TensorType None p \<and> vtype (fanout outs dev h v) = TensorType (Some d) p)"
  proof (cases "v \<in> set outs")
    case False then show ?thesis by (simp add: fanout_def)
  next
    case True
    with assms have q: "\<forall>q. device (vtype (h v)) = Some q \<longrightarrow> q = dev" by blast
    show ?thesis
    proof (cases "vtype (h v)")
      case (TensorType dv p)
      with q True show ?thesis by (cases dv) (simp_all add: fanout_def)
    qed (use True in \<open>simp_all add: fanout_def\<close>)
  qed
qed

lemma upd_same_vtype: "(x :: Value_obj)\<lparr>vtype := vtype x\<rparr> = x"
  by simp

lemma setDeviceType_step:
  assumes t: "is_TensorType (vtype (h out))"
    and ok: "\<forall>q. device (vtype (h out)) = Some q \<longrightarrow> q = dev"
  shows "setDeviceType out dev False h =
           Inr (device (vtype (h out)) = None, h(out := (h out)\<lparr>vtype := withDevice (vtype (h out)) dev\<rparr>))"
proof (cases "vtype (h out)")
  case (TensorType dv p)
  show ?thesis
  proof (cases dv)
    case None
    with TensorType show ?thesis by (simp add: setDeviceType_def setType_def)
  next
    case (Some q)
    with TensorType ok have qd: "q = dev" by simp
    have "(h out)\<lparr>vtype := withDevice (vtype (h out)) dev\<rparr> = h out"
      unfolding TensorType Some qd withDevice.simps
      using TensorType Some qd upd_same_vtype [of "h out"] by simp
    then have "h(out := (h out)\<lparr>vtype := withDevice (vtype (h out)) dev\<rparr>) = h"
      by (simp only: fun_upd_triv)
    moreover have "setDeviceType out dev False h = Inr (False, h)"
      using TensorType Some qd by (simp add: setDeviceType_def)
    moreover have "(device (vtype (h out)) = None) = False"
      using TensorType Some by simp
    ultimately show ?thesis by (simp only:)
  qed
qed (use t in simp_all)

lemma setReturnsToDevice_loop_ok:
  assumes "\<forall>v\<in>set outs. \<forall>q. device (vtype (h v)) = Some q \<longrightarrow> q = dev"
  shows "setReturnsToDevice_loop outs dev changed h =
           Inr (changed \<or> (\<exists>v\<in>set outs. is_TensorType (vtype (h v)) \<and> device (vtype (h v)) = None),
                fanout outs dev h)"
  using assms
proof (induction outs arbitrary: changed h)
  case Nil
  then show ?case by (simp add: fanout_def)
next
  case (Cons out outs)
  let ?h1 = "h(out := (h out)\<lparr>vtype := withDevice (vtype (h out)) dev\<rparr>)"
  have ok1: "\<forall>v\<in>set outs. \<forall>q. device (vtype (?h1 v)) = Some q \<longrightarrow> q = dev"
  proof (intro ballI allI impI)
    fix v q assume v: "v \<in> set outs" and q: "device (vtype (?h1 v)) = Some q"
    show "q = dev"
    proof (cases "v = out")
      case True
      with q have "device (withDevice (vtype (h out)) dev) = Some q" by simp
      then show ?thesis using Cons.prems by (cases "vtype (h out)") auto
    next
      case False
      with q v Cons.prems show ?thesis by simp
    qed
  qed
  have fan: "fanout outs dev ?h1 = fanout (out # outs) dev h"
    by (rule ext) (simp add: fanout_def withDevice_idem)
  have flag: "(\<exists>v\<in>set outs. is_TensorType (vtype (?h1 v)) \<and> device (vtype (?h1 v)) = None) \<or>
              (is_TensorType (vtype (h out)) \<and> device (vtype (h out)) = None)
          \<longleftrightarrow> (\<exists>v\<in>set (out # outs). is_TensorType (vtype (h v)) \<and> device (vtype (h v)) = None)"
    (is "?L \<longleftrightarrow> ?R")
  proof
    assume ?L
    then show ?R
    proof
      assume "\<exists>v\<in>set outs. is_TensorType (vtype (?h1 v)) \<and> device (vtype (?h1 v)) = None"
      then obtain v where v: "v \<in> set outs" "is_TensorType (vtype (?h1 v))" "device (vtype (?h1 v)) = None"
        by blast
      have "v \<noteq> out"
      proof
        assume "v = out"
        with v show False by (cases "vtype (h out)") auto
      qed
      with v show ?R by auto
    next
      assume "is_TensorType (vtype (h out)) \<and> device (vtype (h out)) = None"
      then show ?R by simp
    qed
  next
    assume ?R
    then obtain v where v: "v \<in> set (out # outs)" "is_TensorType (vtype (h v))" "device (vtype (h v)) = None"
      by blast
    show ?L
    proof (cases "v = out")
      case True with v show ?thesis by simp
    next
      case False
      with v have "v \<in> set outs" "is_TensorType (vtype (?h1 v))" "device (vtype (?h1 v)) = None" by auto
      then show ?thesis by blast
    qed
  qed
  let ?c1 = "is_TensorType (vtype (h out)) \<and> device (vtype (h out)) = None"
  let ?E1 = "\<exists>v\<in>set outs. is_TensorType (vtype (?h1 v)) \<and> device (vtype (?h1 v)) = None"
  have step: "setReturnsToDevice_loop (out # outs) dev changed h
        = setReturnsToDevice_loop outs dev (changed \<or> ?c1) ?h1"
  proof (cases "is_TensorType (vtype (h out))")
    case False
    then have "?h1 = h" by (simp add: withDevice_nontensor)
    with False show ?thesis by simp
  next
    case True
    from Cons.prems have "\<forall>q. device (vtype (h out)) = Some q \<longrightarrow> q = dev" by simp
    from setDeviceType_step [where h = h and out = out and dev = dev, OF True this] True
    show ?thesis by simp
  qed
  have "setReturnsToDevice_loop outs dev (changed \<or> ?c1) ?h1
      = Inr ((changed \<or> ?c1) \<or> ?E1, fanout outs dev ?h1)"
    by (rule Cons.IH [OF ok1])
  moreover have "((changed \<or> ?c1) \<or> ?E1)
      = (changed \<or> (\<exists>v\<in>set (out # outs). is_TensorType (vtype (h v)) \<and> device (vtype (h v)) = None))"
    using flag by blast
  ultimately show ?case using step fan by (simp only:)
qed

lemma setReturnsToDevice_loop_conflict:
  assumes "\<exists>v\<in>set outs. \<exists>q. device (vtype (h v)) = Some q \<and> q \<noteq> dev"
  shows "\<exists>v\<in>set outs. \<exists>q. device (vtype (h v)) = Some q \<and> q \<noteq> dev \<and>
           setReturnsToDevice_loop outs dev changed h = Inl (ExpectedDevice dev q)"
  using assms
proof (induction outs arbitrary: changed h)
  case Nil
  then show ?case by simp
next
  case (Cons out outs)
  show ?case
  proof (cases "\<exists>q. device (vtype (h out)) = Some q \<and> q \<noteq> dev")
    case True
    then obtain q where q: "device (vtype (h out)) = Some q" "q \<noteq> dev" by blast
    then have "is_TensorType (vtype (h out))" by (cases "vtype (h out)") auto
    with q have "setReturnsToDevice_loop (out # outs) dev changed h = Inl (ExpectedDevice dev q)"
      by (simp add: setDeviceType_def)
    with q have "device (vtype (h out)) = Some q \<and> q \<noteq> dev \<and>
           setReturnsToDevice_loop (out # outs) dev changed h = Inl (ExpectedDevice dev q)"
      by (simp only: simp_thms)
    then show ?thesis by (intro bexI [where x = out] exI [where x = q]) simp_all
  next
    case False
    let ?h1 = "h(out := (h out)\<lparr>vtype := withDevice (vtype (h out)) dev\<rparr>)"
    let ?c1 = "is_TensorType (vtype (h out)) \<and> device (vtype (h out)) = None"
    from False have okout: "\<forall>q. device (vtype (h out)) = Some q \<longrightarrow> q = dev" by blast
    from False Cons.prems obtain v q where v: "v \<in> set outs" "device (vtype (h v)) = Some q" "q \<noteq> dev"
      by auto
    with False have ne: "v \<noteq> out" by blast
    with v(2) have "device (vtype (?h1 v)) = Some q" by simp
    with v have ex1: "\<exists>v\<in>set outs. \<exists>q. device (vtype (?h1 v)) = Some q \<and> q \<noteq> dev" by blast
    have step: "setReturnsToDevice_loop (out # outs) dev changed h
        = setReturnsToDevice_loop outs dev (changed \<or> ?c1) ?h1"
    proof (cases "is_TensorType (vtype (h out))")
      case nt: False
      then have "?h1 = h" by (simp add: withDevice_nontensor)
      with nt show ?thesis by simp
    next
      case t: True
      from setDeviceType_step [where h = h and out = out and dev = dev, OF t okout] t
      show ?thesis by simp
    qed
    from Cons.IH [OF ex1, of "changed \<or> ?c1"]
    obtain w q' where w: "w \<in> set outs" "device (vtype (?h1 w)) = Some q'" "q' \<noteq> dev"
      and r: "setReturnsToDevice_loop outs dev (changed \<or> ?c1) ?h1 = Inl (ExpectedDevice dev q')"
      by blast
    have wne: "w \<noteq> out"
    proof
      assume "w = out"
      with w(2) have "device (withDevice (vtype (h out)) dev) = Some q'" by simp
      with w(3) show False by (cases "vtype (h out)") auto
    qed
    with w(2) have "device (vtype (h w)) = Some q'" by simp
    moreover from step r have "setReturnsToDevice_loop (out # outs) dev changed h = Inl (ExpectedDevice dev q')"
      by (simp only:)
    moreover from w(1) have "w \<in> set (out # outs)" by simp
    ultimately show ?thesis using w(3) by blast
  qed
qed

lemma fanout_id:
  assumes "\<forall>v\<in>set outs. is_TensorType (vtype (h v)) \<longrightarrow> device (vtype (h v)) = Some dev"
  shows "fanout outs dev h = h"
proof (rule heap_eqI)
  fix v
  show "ivalue (fanout outs dev h v) = ivalue (h v)" by (simp add: fanout_def)
  show "vtype (fanout outs dev h v) = vtype (h v)"
  proof (cases "v \<in> set outs")
    case False then show ?thesis by (simp add: fanout_def)
  next
    case True
    with assms have "is_TensorType (vtype (h v)) \<longrightarrow> device (vtype (h v)) = Some dev" by blast
    then have "withDevice (vtype (h v)) dev = vtype (h v)"
      by (cases "is_TensorType (vtype (h v))") (simp_all add: withDevice_same withDevice_nontensor)
    with True show ?thesis by (simp add: fanout_def)
  qed
qed

lemma fanout_frame: "v \<notin> set outs \<Longrightarrow> fanout outs dev h v = h v"
  by (simp add: fanout_def)

lemma fanout_device:
  "v \<in> set outs \<Longrightarrow> is_TensorType (vtype (h v)) \<Longrightarrow> device (vtype (fanout outs dev h v)) = Some dev"
  by (cases "vtype (h v)") (simp_all add: fanout_def)

lemma fanout_changed:
  assumes "\<forall>v\<in>set outs. \<forall>q. device (vtype (h v)) = Some q \<longrightarrow> q = dev"
  shows "(fanout outs dev h \<noteq> h) =
         (\<exists>v\<in>set outs. is_TensorType (vtype (h v)) \<and> device (vtype (h v)) = None)"
proof
  assume ne: "fanout outs dev h \<noteq> h"
  show "\<exists>v\<in>set outs. is_TensorType (vtype (h v)) \<and> device (vtype (h v)) = None"
  proof (rule ccontr)
    assume n: "\<not> (\<exists>v\<in>set outs. is_TensorType (vtype (h v)) \<and> device (vtype (h v)) = None)"
    have "\<forall>v\<in>set outs. is_TensorType (vtype (h v)) \<longrightarrow> device (vtype (h v)) = Some dev"
    proof (intro ballI impI)
      fix v assume v: "v \<in> set outs" and t: "is_TensorType (vtype (h v))"
      with n have "device (vtype (h v)) \<noteq> None" by auto
      then obtain q where "device (vtype (h v)) = Some q" by blast
      with assms v show "device (vtype (h v)) = Some dev" by blast
    qed
    from fanout_id [OF this] ne show False by contradiction
  qed
next
  assume "\<exists>v\<in>set outs. is_TensorType (vtype (h v)) \<and> device (vtype (h v)) = None"
  then obtain v where v: "v \<in> set outs" "is_TensorType (vtype (h v))" "device (vtype (h v)) = None"
    by blast
  from fanout_device [where h = h and v = v and outs = outs and dev = dev, OF v(1,2)] have "device (vtype (fanout outs dev h v)) = Some dev" .
  with v(3) have "fanout outs dev h v \<noteq> h v" by auto
  then show "fanout outs dev h \<noteq> h" by auto
qed

lemma setReturnsToDevice_Inr:
  assumes "setReturnsToDevice n dev h = Inr (c, h')"
  shows "\<forall>v\<in>set (outputs n). \<forall>q. device (vtype (h v)) = Some q \<longrightarrow> q = dev"
    and "h' = fanout (outputs n) dev h"
    and "c = (\<exists>v\<in>set (outputs n). is_TensorType (vtype (h v)) \<and> device (vtype (h v)) = None)"
proof -
  show ok: "\<forall>v\<in>set (outputs n). \<forall>q. device (vtype (h v)) = Some q \<longrightarrow> q = dev"
  proof (rule ccontr)
    assume "\<not> ?thesis"
    then have "\<exists>v\<in>set (outputs n). \<exists>q. device (vtype (h v)) = Some q \<and> q \<noteq> dev" by blast
    from setReturnsToDevice_loop_conflict [OF this, of False]
    obtain q where "setReturnsToDevice_loop (outputs n) dev False h = Inl (ExpectedDevice dev q)"
      by blast
    with assms show False by (simp add: setReturnsToDevice_def)
  qed
  have e1: "setReturnsToDevice_loop (outputs n) dev False h = Inr (c, h')"
    using assms by (simp only: setReturnsToDevice_def)
  have e2: "setReturnsToDevice_loop (outputs n) dev False h
      = Inr (False \<or> (\<exists>v\<in>set (outputs n). is_TensorType (vtype (h v)) \<and> device (vtype (h v)) = None),
                fanout (outputs n) dev h)"
    by (rule setReturnsToDevice_loop_ok [OF ok])
  have "Inr (c, h') = setReturnsToDevice_loop (outputs n) dev False h"
    using e1 by (rule sym)
  also note e2
  finally have "(Inr (c, h') :: (bool \<times> Heap) result) = Inr (False \<or> (\<exists>v\<in>set (outputs n). is_TensorType (vtype (h v)) \<and> device (vtype (h v)) = None),
                fanout (outputs n) dev h)" .
  then show "h' = fanout (outputs n) dev h"
    and "c = (\<exists>v\<in>set (outputs n). is_TensorType (vtype (h v)) \<and> device (vtype (h v)) = None)"
    by simp_all
qed

lemma setReturnsToDevice_sound:
  assumes "setReturnsToDevice n dev h = Inr (c, h')"
  shows "refines h h'" and "c = (h' \<noteq> h)" and "\<forall>v. v \<notin> set (outputs n) \<longrightarrow> h' v = h v"
proof -
  note r = setReturnsToDevice_Inr [OF assms]
  show "refines h h'" unfolding r(2) by (rule refines_fanout [OF r(1)])
  show "c = (h' \<noteq> h)" unfolding r(2) r(3) by (rule fanout_changed [OF r(1), symmetric])
  show "\<forall>v. v \<notin> set (outputs n) \<longrightarrow> h' v = h v" unfolding r(2) by (simp add: fanout_frame)
qed

lemma setReturnsToDevice_stable:
  assumes a: "setReturnsToDevice n dev h = Inr (c, h1)" and b: "refines h1 h2"
  shows "setReturnsToDevice n dev h2 = Inr (False, h2)"
proof -
  note r = setReturnsToDevice_Inr [OF a]
  have all: "\<forall>v\<in>set (outputs n). is_TensorType (vtype (h2 v)) \<longrightarrow> device (vtype (h2 v)) = Some dev"
  proof (intro ballI impI)
    fix v assume v: "v \<in> set (outputs n)" and t2: "is_TensorType (vtype (h2 v))"
    from t2 refines_is_TensorType [OF b, of v] have t1: "is_TensorType (vtype (h1 v))" by simp
    have rh: "refines h h1" using setReturnsToDevice_sound(1) [OF a] .
    from t1 refines_is_TensorType [OF rh, of v] have t: "is_TensorType (vtype (h v))" by simp
    from fanout_device [where h = h and v = v and outs = "outputs n" and dev = dev, OF v t] r(2) have d1: "device (vtype (h1 v)) = Some dev" by simp
    from refines_device_Some [OF b d1] d1 show "device (vtype (h2 v)) = Some dev" by simp
  qed
  then have ok: "\<forall>v\<in>set (outputs n). \<forall>q. device (vtype (h2 v)) = Some q \<longrightarrow> q = dev"
  proof (intro ballI allI impI)
    fix v q assume v: "v \<in> set (outputs n)" and q: "device (vtype (h2 v)) = Some q"
    then have "is_TensorType (vtype (h2 v))" by (cases "vtype (h2 v)") auto
    with all v q show "q = dev" by auto
  qed
  have nf: "\<not> (\<exists>v\<in>set (outputs n). is_TensorType (vtype (h2 v)) \<and> device (vtype (h2 v)) = None)"
    using all by auto
  from setReturnsToDevice_loop_ok [OF ok, of False] nf fanout_id [OF all]
  show ?thesis by (simp add: setReturnsToDevice_def)
qed

section \<open>Properties of the propagation rules and the driver\<close>

lemma propWithNoDevice_loop_cong:
  assumes "\<forall>v\<in>set inps. vtype (h2 v) = vtype (h v)"
  shows "propWithNoDevice_loop inps dev h2 = propWithNoDevice_loop inps dev h"
  using assms
proof (induction inps arbitrary: dev)
  case Nil
  show ?case by simp
next
  case (Cons inp inps)
  from Cons.prems have e: "vtype (h2 inp) = vtype (h inp)"
    and r: "\<forall>v\<in>set inps. vtype (h2 v) = vtype (h v)" by simp_all
  note ih = Cons.IH [OF r]
  show ?case
    by (simp add: e ih Let_def split: option.split)
qed

lemma propWithNoDevice_cases:
  assumes "propWithNoDevice n h = Inr r"
  shows "r = (False, h) \<or> (\<exists>d. setReturnsToDevice n d h = Inr r)"
  using assms unfolding propWithNoDevice_def
  by (auto split: sum.splits option.splits)

lemma defaultDeviceProp_loop_cases:
  assumes "defaultDeviceProp_loop as i n h = Inr r"
  shows "r = (False, h) \<or> (\<exists>d. setReturnsToDevice n d h = Inr r)"
  using assms
proof (induction as arbitrary: i)
  case Nil
  then show ?case by (simp add: propWithNoDevice_cases)
next
  case (Cons a as)
  show ?case
  proof (cases "isDeviceArgumentType (arg_type a)")
    case False
    with Cons.prems have "defaultDeviceProp_loop as (Suc i) n h = Inr r" by simp
    then show ?thesis by (rule Cons.IH)
  next
    case True
    show ?thesis
    proof (cases "toIValue (inputs n ! i) h")
      case None
      with True Cons.prems show ?thesis by (simp split: if_splits)
    next
      case (Some iv)
      show ?thesis
      proof (cases iv)
        case IVNone
        with Some True Cons.prems have "defaultDeviceProp_loop as (Suc i) n h = Inr r"
          by (simp split: if_splits)
        then show ?thesis by (rule Cons.IH)
      next
        case (IVDevice d)
        with Some True Cons.prems have "setReturnsToDevice n d h = Inr r"
          by (simp split: if_splits)
        then show ?thesis by blast
      qed (use Some True Cons.prems in \<open>simp_all split: if_splits\<close>)
    qed
  qed
qed

lemma processNode_cases:
  assumes reg: "device_prop_registry tp = []" and res: "processNode tp n h = Inr r"
  shows "r = (False, h) \<or> (\<exists>d. setReturnsToDevice n d h = Inr r)"
proof (cases "r = (False, h)")
  case True then show ?thesis by simp
next
  case False
  with res have "processAtenOps tp n h = Inr r"
    unfolding processNode_def by (simp add: Let_def split: if_splits)
  with reg obtain op where "defaultDeviceProp_loop (arguments op) 0 n h = Inr r"
    unfolding processAtenOps_def defaultDeviceProp_def
    by (auto split: option.splits)
  then show ?thesis by (rule defaultDeviceProp_loop_cases)
qed

lemma processNode_sound:
  assumes reg: "device_prop_registry tp = []" and res: "processNode tp n h = Inr (c, h')"
  shows "refines h h'" and "c = (h' \<noteq> h)" and "\<forall>v. v \<notin> set (outputs n) \<longrightarrow> h' v = h v"
proof -
  from processNode_cases [OF reg res]
  have "(c, h') = (False, h) \<or> (\<exists>d. setReturnsToDevice n d h = Inr (c, h'))" .
  then have "refines h h' \<and> c = (h' \<noteq> h) \<and> (\<forall>v. v \<notin> set (outputs n) \<longrightarrow> h' v = h v)"
  proof
    assume "(c, h') = (False, h)"
    then show ?thesis by (simp add: refines_refl)
  next
    assume "\<exists>d. setReturnsToDevice n d h = Inr (c, h')"
    then obtain d where d: "setReturnsToDevice n d h = Inr (c, h')" ..
    from setReturnsToDevice_sound [OF d] show ?thesis by (intro conjI)
  qed
  then show "refines h h'" and "c = (h' \<noteq> h)" and "\<forall>v. v \<notin> set (outputs n) \<longrightarrow> h' v = h v"
    by blast+
qed

lemma propWithNoDevice_stable:
  assumes a: "propWithNoDevice n h = Inr (c, h1)"
    and i: "\<forall>v\<in>set (inputs n). vtype (h2 v) = vtype (h v)"
    and b: "refines h1 h2"
  shows "propWithNoDevice n h2 = Inr (False, h2)"
proof -
  have e: "propWithNoDevice_loop (inputs n) None h2 = propWithNoDevice_loop (inputs n) None h"
    by (rule propWithNoDevice_loop_cong [OF i])
  show ?thesis
  proof (cases "propWithNoDevice_loop (inputs n) None h")
    case (Inl err)
    with a show ?thesis by (simp add: propWithNoDevice_def)
  next
    case (Inr dv)
    show ?thesis
    proof (cases dv)
      case None
      with Inr e show ?thesis by (simp add: propWithNoDevice_def)
    next
      case (Some d)
      with Inr a have "setReturnsToDevice n d h = Inr (c, h1)" by (simp add: propWithNoDevice_def)
      from setReturnsToDevice_stable [OF this b] Some Inr e
      show ?thesis by (simp add: propWithNoDevice_def)
    qed
  qed
qed

lemma defaultDeviceProp_loop_stable:
  assumes a: "defaultDeviceProp_loop as i n h = Inr (c, h1)"
    and iv: "\<forall>v\<in>set (inputs n). vtype (h2 v) = vtype (h v) \<and> ivalue (h2 v) = ivalue (h v)"
    and b: "refines h1 h2"
  shows "defaultDeviceProp_loop as i n h2 = Inr (False, h2)"
  using a
proof (induction as arbitrary: i)
  case Nil
  then have "propWithNoDevice n h = Inr (c, h1)" by simp
  from propWithNoDevice_stable [OF this _ b] iv show ?case by simp
next
  case (Cons a as)
  show ?case
  proof (cases "isDeviceArgumentType (arg_type a)")
    case False
    with Cons.prems have "defaultDeviceProp_loop as (Suc i) n h = Inr (c, h1)" by simp
    from Cons.IH [OF this] False show ?thesis by simp
  next
    case True
    show ?thesis
    proof (cases "i < length (inputs n)")
      case False
      with True Cons.prems show ?thesis by simp
    next
      case lt: True
      then have "inputs n ! i \<in> set (inputs n)" by simp
      with iv have tv: "toIValue (inputs n ! i) h2 = toIValue (inputs n ! i) h"
        by (simp add: toIValue_def)
      show ?thesis
      proof (cases "toIValue (inputs n ! i) h")
        case None
        with True lt tv show ?thesis by simp
      next
        case (Some v)
        show ?thesis
        proof (cases v)
          case IVNone
          with Some True lt Cons.prems have "defaultDeviceProp_loop as (Suc i) n h = Inr (c, h1)"
            by simp
          from Cons.IH [OF this] IVNone Some True lt tv show ?thesis by simp
        next
          case (IVDevice d)
          with Some True lt Cons.prems have "setReturnsToDevice n d h = Inr (c, h1)" by simp
          from setReturnsToDevice_stable [OF this b] IVDevice Some True lt tv
          show ?thesis by simp
        qed (use Some True lt tv in simp_all)
      qed
    qed
  qed
qed

lemma processNode_stable:
  assumes reg: "device_prop_registry tp = []"
    and a: "processNode tp n h = Inr (c, h1)"
    and iv: "\<forall>v\<in>set (inputs n). vtype (h2 v) = vtype (h v)"
    and b: "refines h1 h2"
  shows "processNode tp n h2 = Inr (False, h2)"
proof -
  have rh: "refines h h1" by (rule processNode_sound(1) [OF reg a])
  have r2: "refines h h2" by (rule refines_trans [OF rh b])
  have ival: "\<forall>v\<in>set (inputs n). vtype (h2 v) = vtype (h v) \<and> ivalue (h2 v) = ivalue (h v)"
    using iv refinesD(1) [OF r2] by simp
  have hto: "list_ex (\<lambda>v. is_TensorType (vtype (h2 v))) (outputs n)
           = list_ex (\<lambda>v. is_TensorType (vtype (h v))) (outputs n)"
    by (simp add: refines_is_TensorType [OF r2])
  show ?thesis
  proof (cases "processAtenOps tp n h = Inr (c, h1) \<and> processNode tp n h = processAtenOps tp n h
                 \<and> processNode tp n h2 = processAtenOps tp n h2")
    case False
    with a hto show ?thesis
      unfolding processNode_def by (auto simp: Let_def split: if_splits)
  next
    case True
    then have pa: "processAtenOps tp n h = Inr (c, h1)"
      and p2: "processNode tp n h2 = processAtenOps tp n h2" by simp_all
    from pa reg obtain op where op: "maybeOperator n = Some op"
      and d: "defaultDeviceProp_loop (arguments op) 0 n h = Inr (c, h1)"
      unfolding processAtenOps_def defaultDeviceProp_def by (auto split: option.splits)
    from defaultDeviceProp_loop_stable [OF d ival b] op reg p2
    show ?thesis by (simp add: processAtenOps_def defaultDeviceProp_def)
  qed
qed

lemma refines_neq_iff:
  assumes a: "refines h h1" and b: "refines h1 h2"
  shows "(h2 \<noteq> h) = (h1 \<noteq> h \<or> h2 \<noteq> h1)"
proof (cases "h2 = h")
  case False
  then show ?thesis by auto
next
  case True
  have "h1 = h"
  proof (rule heap_eqI)
    fix v
    from True have "vtype (h2 v) = vtype (h v)" by simp
    from refines_same_vtype [OF a b this] show "vtype (h1 v) = vtype (h v)" .
    show "ivalue (h1 v) = ivalue (h v)" by (rule refinesD(1) [OF a])
  qed
  with True show ?thesis by simp
qed

lemma processBlock_loop_sound:
  assumes reg: "device_prop_registry tp = []"
    and res: "processBlock_loop tp ns changed h = Inr (c, h')"
  shows "refines h h' \<and> c = (changed \<or> h' \<noteq> h) \<and>
         (\<forall>v. (\<forall>n\<in>set ns. v \<notin> set (outputs n)) \<longrightarrow> h' v = h v)"
  using res
proof (induction ns arbitrary: changed h)
  case Nil
  then show ?case by (simp add: refines_refl)
next
  case (Cons n ns)
  from Cons.prems obtain c1 h1 where n1: "processNode tp n h = Inr (c1, h1)"
    and rest: "processBlock_loop tp ns (changed \<or> c1) h1 = Inr (c, h')"
    by (auto split: sum.splits)
  note s1 = processNode_sound [OF reg n1]
  from Cons.IH [OF rest] have r2: "refines h1 h'" and c2: "c = ((changed \<or> c1) \<or> h' \<noteq> h1)"
    and f2: "\<forall>v. (\<forall>n\<in>set ns. v \<notin> set (outputs n)) \<longrightarrow> h' v = h1 v" by blast+
  have "refines h h'" by (rule refines_trans [OF s1(1) r2])
  moreover have "c = (changed \<or> h' \<noteq> h)"
    using c2 s1(2) refines_neq_iff [OF s1(1) r2] by blast
  moreover have "\<forall>v. (\<forall>m\<in>set (n # ns). v \<notin> set (outputs m)) \<longrightarrow> h' v = h v"
    using f2 s1(3) by simp
  ultimately show ?case by blast
qed

lemma processBlock_loop_idem:
  assumes reg: "device_prop_registry tp = []"
    and wf: "defs_before_uses ns"
    and res: "processBlock_loop tp ns changed h = Inr (c, h')"
  shows "processBlock_loop tp ns changed2 h' = Inr (changed2, h')"
  using wf res
proof (induction ns arbitrary: changed h)
  case Nil
  then show ?case by simp
next
  case (Cons n ns)
  from Cons.prems(2) obtain c1 h1 where n1: "processNode tp n h = Inr (c1, h1)"
    and rest: "processBlock_loop tp ns (changed \<or> c1) h1 = Inr (c, h')"
    by (auto split: sum.splits)
  from Cons.prems(1) have wfn: "\<forall>v\<in>set (inputs n). v \<notin> set (outputs n) \<and> (\<forall>m\<in>set ns. v \<notin> set (outputs m))"
    and wfr: "defs_before_uses ns" by (simp_all add: list_all_iff)
  note s1 = processNode_sound [OF reg n1]
  from processBlock_loop_sound [OF reg rest] have r2: "refines h1 h'"
    and f2: "\<forall>v. (\<forall>n\<in>set ns. v \<notin> set (outputs n)) \<longrightarrow> h' v = h1 v" by blast+
  have inp: "\<forall>v\<in>set (inputs n). vtype (h' v) = vtype (h v)"
  proof
    fix v assume v: "v \<in> set (inputs n)"
    with wfn have "v \<notin> set (outputs n)" and "\<forall>m\<in>set ns. v \<notin> set (outputs m)" by blast+
    with f2 s1(3) have "h' v = h1 v" "h1 v = h v" by blast+
    then show "vtype (h' v) = vtype (h v)" by simp
  qed
  have "processNode tp n h' = Inr (False, h')"
    by (rule processNode_stable [OF reg n1 inp r2])
  moreover have "processBlock_loop tp ns changed2 h' = Inr (changed2, h')"
    by (rule Cons.IH [OF wfr rest])
  ultimately show ?case by simp
qed

lemma DeviceTypePropagation_undefined: "DeviceTypePropagation graph h = Inl UndefinedBehaviour"
  by (simp add: DeviceTypePropagation_def run_def)

lemma new_pass_registry: "device_prop_registry (new_DeviceTypePropagationPass graph) = []"
  by (simp add: new_DeviceTypePropagationPass_def buildRuleRegistry_def)

lemmas ex_defs = ex_heap_def add_op_def to_op_def add_node_def to_node_def list_construct_node_def
  if_node_def list_unpack_node_def two_device_op_def two_device_node_def

lemmas pass_defs = DeviceTypePropagation_def run_def new_DeviceTypePropagationPass_def
  buildRuleRegistry_def processBlock_def processNode_def processAtenOps_def defaultDeviceProp_def
  propWithNoDevice_def setReturnsToDevice_def setDeviceType_def setType_def toIValue_def
  isDeviceArgumentType.simps

lemma processBlock_loop_append:
  "processBlock_loop tp (xs @ ys) changed h =
     (case processBlock_loop tp xs changed h of
        Inl e \<Rightarrow> Inl e
      | Inr (c, h') \<Rightarrow> processBlock_loop tp ys c h')"
  by (induction xs arbitrary: changed h) (auto split: sum.splits)

lemma processNode_registry:
  assumes "device_prop_registry tp = device_prop_registry tp'"
  shows "processNode tp n h = processNode tp' n h"
  unfolding processNode_def processAtenOps_def assms by (rule refl)

lemma processBlock_loop_registry:
  assumes "device_prop_registry tp = device_prop_registry tp'"
  shows "processBlock_loop tp ns changed h = processBlock_loop tp' ns changed h"
proof (induction ns arbitrary: changed h)
  case Nil
  show ?case by simp
next
  case (Cons n ns)
  show ?case
    unfolding processBlock_loop.simps processNode_registry [OF assms, of n h] Cons.IH
    by (rule refl)
qed

lemma propWithNoDevice_loop_Inl:
  "propWithNoDevice_loop inps dev h = Inl e \<Longrightarrow> \<exists>p q. e = ExpectedDevice p q"
  by (induction inps arbitrary: dev) (auto simp: Let_def split: if_splits option.splits)

lemma setReturnsToDevice_Inl:
  assumes "setReturnsToDevice n dev h = Inl e"
  shows "\<exists>q. e = ExpectedDevice dev q"
proof (cases "\<exists>v\<in>set (outputs n). \<exists>q. device (vtype (h v)) = Some q \<and> q \<noteq> dev")
  case True
  from setReturnsToDevice_loop_conflict [OF True, of False] assms
  show ?thesis by (auto simp: setReturnsToDevice_def)
next
  case False
  then have "\<forall>v\<in>set (outputs n). \<forall>q. device (vtype (h v)) = Some q \<longrightarrow> q = dev" by blast
  from setReturnsToDevice_loop_ok [OF this, of False] assms
  show ?thesis by (simp add: setReturnsToDevice_def)
qed

lemma propWithNoDevice_Inl:
  assumes "propWithNoDevice n h = Inl e"
  shows "\<exists>p q. e = ExpectedDevice p q"
proof (cases "propWithNoDevice_loop (inputs n) None h")
  case (Inl e')
  with assms have "e' = e" by (simp add: propWithNoDevice_def)
  with Inl show ?thesis by (auto dest: propWithNoDevice_loop_Inl)
next
  case (Inr dv)
  with assms obtain d where "setReturnsToDevice n d h = Inl e"
    by (cases dv) (simp_all add: propWithNoDevice_def)
  from setReturnsToDevice_Inl [OF this] show ?thesis by blast
qed

lemma defaultDeviceProp_loop_Inl:
  assumes "defaultDeviceProp_loop as i n h = Inl e"
  shows "e = IndexOutOfRange \<or> (\<exists>p q. e = ExpectedDevice p q)"
  using assms
proof (induction as arbitrary: i)
  case Nil
  then show ?case by (simp add: propWithNoDevice_Inl)
next
  case (Cons a as)
  show ?case
  proof (cases "isDeviceArgumentType (arg_type a) \<and> i < length (inputs n)")
    case False
    with Cons.prems Cons.IH show ?thesis by (auto split: if_splits)
  next
    case True
    show ?thesis
    proof (cases "toIValue (inputs n ! i) h")
      case None
      with True Cons.prems show ?thesis by simp
    next
      case (Some iv)
      show ?thesis
      proof (cases iv)
        case IVNone
        with Some True Cons.prems Cons.IH show ?thesis by simp
      next
        case (IVDevice d)
        with Some True Cons.prems have "setReturnsToDevice n d h = Inl e" by simp
        from setReturnsToDevice_Inl [OF this] show ?thesis by blast
      qed (use Some True Cons.prems in simp_all)
    qed
  qed
qed

lemma processNode_Inl:
  assumes reg: "device_prop_registry tp = []" and res: "processNode tp n h = Inl e"
  shows "e \<noteq> ExpectingTensorType"
proof (cases "processNode tp n h = processAtenOps tp n h")
  case False
  with res show ?thesis unfolding processNode_def by (auto simp: Let_def split: if_splits)
next
  case True
  with res have "processAtenOps tp n h = Inl e" by simp
  with reg have "e = NoOperatorFound \<or> (\<exists>op. defaultDeviceProp_loop (arguments op) 0 n h = Inl e)"
    unfolding processAtenOps_def defaultDeviceProp_def by (auto split: option.splits)
  then show ?thesis by (auto dest: defaultDeviceProp_loop_Inl)
qed

lemma processBlock_loop_Inl:
  assumes reg: "device_prop_registry tp = []" and res: "processBlock_loop tp ns changed h = Inl e"
  shows "e \<noteq> ExpectingTensorType"
  using res
proof (induction ns arbitrary: changed h)
  case Nil
  then show ?case by simp
next
  case (Cons n ns)
  show ?case
  proof (cases "processNode tp n h")
    case (Inl e')
    with Cons.prems have "e' = e" by simp
    with Inl processNode_Inl [OF reg] show ?thesis by blast
  next
    case (Inr r)
    with Cons.prems Cons.IH show ?thesis by (cases r) auto
  qed
qed

lemma refines_neq_vtype:
  assumes "refines h h'"
  shows "(h' \<noteq> h) = (\<exists>v. vtype (h' v) \<noteq> vtype (h v))"
proof
  assume ne: "h' \<noteq> h"
  show "\<exists>v. vtype (h' v) \<noteq> vtype (h v)"
  proof (rule ccontr)
    assume "\<not> (\<exists>v. vtype (h' v) \<noteq> vtype (h v))"
    then have "\<And>v. vtype (h' v) = vtype (h v)" by blast
    then have "h' = h" by (rule heap_eqI) (rule refinesD(1) [OF assms])
    with ne show False by contradiction
  qed
next
  assume "\<exists>v. vtype (h' v) \<noteq> vtype (h v)"
  then show "h' \<noteq> h" by auto
qed

lemma processBlock_sound:
  assumes "processBlock (new_DeviceTypePropagationPass graph) blk h = Inr (c, h')"
  shows "refines h h'" and "c = (h' \<noteq> h)"
proof -
  from assms have "processBlock_loop (new_DeviceTypePropagationPass graph) blk False h = Inr (c, h')"
    by (simp add: processBlock_def)
  from processBlock_loop_sound [OF new_pass_registry this]
  show "refines h h'" and "c = (h' \<noteq> h)" by simp_all
qed

lemma processBlock_flag_iff_refined:
  assumes "processBlock (new_DeviceTypePropagationPass graph) blk h = Inr (changed, h')"
  shows "changed = (\<exists>v. vtype (h' v) \<noteq> vtype (h v)) \<and>
         (\<forall>v. vtype (h' v) \<noteq> vtype (h v) \<longrightarrow>
              (\<exists>p d. vtype (h v) = TensorType None p \<and> vtype (h' v) = TensorType (Some d) p))"
proof
  note s = processBlock_sound [OF assms]
  show "changed = (\<exists>v. vtype (h' v) \<noteq> vtype (h v))"
    using s(2) refines_neq_vtype [OF s(1)] by simp
  show "\<forall>v. vtype (h' v) \<noteq> vtype (h v) \<longrightarrow>
              (\<exists>p d. vtype (h v) = TensorType None p \<and> vtype (h' v) = TensorType (Some d) p)"
    using refinesD(2) [OF s(1)] by blast
qed

lemma processNode_container:
  assumes "kind n = prim_ListConstruct \<or> kind n = prim_ListUnpack"
  shows "processNode tp n h =
           (if list_ex (\<lambda>v. is_TensorType (vtype (h v))) (outputs n)
            then Inl NotSupportedIR else Inr (False, h))"
  using assms by (auto simp: processNode_def)

lemma scan_all_none:
  assumes "\<forall>k<length as. isDeviceArgumentType (arg_type (as ! k)) \<longrightarrow>
             i + k < length (inputs n) \<and> toIValue (inputs n ! (i + k)) h = Some IVNone"
  shows "defaultDeviceProp_loop as i n h = propWithNoDevice n h"
  using assms
proof (induction as arbitrary: i)
  case Nil
  show ?case by simp
next
  case (Cons a as)
  have rest: "\<forall>k<length as. isDeviceArgumentType (arg_type (as ! k)) \<longrightarrow>
             Suc i + k < length (inputs n) \<and> toIValue (inputs n ! (Suc i + k)) h = Some IVNone"
  proof (intro allI impI)
    fix k assume "k < length as" and "isDeviceArgumentType (arg_type (as ! k))"
    with Cons.prems [rule_format, of "Suc k"]
    show "Suc i + k < length (inputs n) \<and> toIValue (inputs n ! (Suc i + k)) h = Some IVNone"
      by simp
  qed
  note ih = Cons.IH [OF rest]
  show ?case
  proof (cases "isDeviceArgumentType (arg_type a)")
    case False
    with ih show ?thesis by simp
  next
    case True
    with Cons.prems [rule_format, of 0]
    have "i < length (inputs n)" "toIValue (inputs n ! i) h = Some IVNone" by simp_all
    with True ih show ?thesis by simp
  qed
qed

lemma scan_first_decisive:
  assumes "k < length as"
    and "isDeviceArgumentType (arg_type (as ! k))"
    and "i + k < length (inputs n)"
    and "toIValue (inputs n ! (i + k)) h \<noteq> Some IVNone"
    and "\<forall>j<k. isDeviceArgumentType (arg_type (as ! j)) \<longrightarrow>
             i + j < length (inputs n) \<and> toIValue (inputs n ! (i + j)) h = Some IVNone"
  shows "defaultDeviceProp_loop as i n h =
           (case toIValue (inputs n ! (i + k)) h of
              Some (IVDevice d) \<Rightarrow> setReturnsToDevice n d h
            | _ \<Rightarrow> Inr (False, h))"
  using assms
proof (induction as arbitrary: i k)
  case Nil
  then show ?case by simp
next
  case (Cons a as)
  show ?case
  proof (cases k)
    case 0
    with Cons.prems show ?thesis
      by (simp split: option.split IValue.split)
  next
    case (Suc k')
    have p1: "k' < length as" using Cons.prems(1) Suc by simp
    have p2: "isDeviceArgumentType (arg_type (as ! k'))" using Cons.prems(2) Suc by simp
    have p3: "Suc i + k' < length (inputs n)" using Cons.prems(3) Suc by simp
    have p4: "toIValue (inputs n ! (Suc i + k')) h \<noteq> Some IVNone" using Cons.prems(4) Suc by simp
    have p5: "\<forall>j<k'. isDeviceArgumentType (arg_type (as ! j)) \<longrightarrow>
             Suc i + j < length (inputs n) \<and> toIValue (inputs n ! (Suc i + j)) h = Some IVNone"
    proof (intro allI impI)
      fix j assume "j < k'" and "isDeviceArgumentType (arg_type (as ! j))"
      with Cons.prems(5) [rule_format, of "Suc j"] Suc
      show "Suc i + j < length (inputs n) \<and> toIValue (inputs n ! (Suc i + j)) h = Some IVNone"
        by simp
    qed
    have ih: "defaultDeviceProp_loop as (Suc i) n h =
           (case toIValue (inputs n ! (i + k)) h of
              Some (IVDevice d) \<Rightarrow> setReturnsToDevice n d h
            | _ \<Rightarrow> Inr (False, h))"
      using Cons.IH [OF p1 p2 p3 p4 p5] Suc by simp
    show ?thesis
    proof (cases "isDeviceArgumentType (arg_type a)")
      case False
      with ih show ?thesis by simp
    next
      case True
      with Cons.prems(5) [rule_format, of 0] Suc
      have "i < length (inputs n)" "toIValue (inputs n ! i) h = Some IVNone" by simp_all
      with True ih show ?thesis by simp
    qed
  qed
qed

lemma setReturnsToDevice_char:
  "if \<exists>v\<in>set (outputs n). \<exists>P. device (vtype (h v)) = Some P \<and> P \<noteq> Q
   then \<exists>P. P \<noteq> Q \<and> setReturnsToDevice n Q h = Inl (ExpectedDevice Q P)
   else setReturnsToDevice n Q h =
          Inr (\<exists>v\<in>set (outputs n). is_TensorType (vtype (h v)) \<and> device (vtype (h v)) = None,
               fanout (outputs n) Q h)"
proof (cases "\<exists>v\<in>set (outputs n). \<exists>P. device (vtype (h v)) = Some P \<and> P \<noteq> Q")
  case True
  from setReturnsToDevice_loop_conflict [OF True, of False]
  have "\<exists>P. P \<noteq> Q \<and> setReturnsToDevice n Q h = Inl (ExpectedDevice Q P)"
    unfolding setReturnsToDevice_def by blast
  with True show ?thesis by simp
next
  case False
  then have "\<forall>v\<in>set (outputs n). \<forall>q. device (vtype (h v)) = Some q \<longrightarrow> q = Q" by blast
  from setReturnsToDevice_loop_ok [OF this, of False] False
  show ?thesis by (simp add: setReturnsToDevice_def)
qed

lemma known_devices_Nil: "known_devices [] h = []"
  by (simp add: known_devices_def map_filter_simps)

lemma known_devices_Cons:
  "known_devices (v # vs) h =
     (case device (vtype (h v)) of None \<Rightarrow> known_devices vs h | Some d \<Rightarrow> d # known_devices vs h)"
  unfolding known_devices_def by (simp add: map_filter_simps)

lemma propWithNoDevice_loop_Some:
  "propWithNoDevice_loop inps (Some P) h =
     (case find (\<lambda>Q. Q \<noteq> P) (known_devices inps h) of
        None \<Rightarrow> Inr (Some P)
      | Some Q \<Rightarrow> Inl (ExpectedDevice P Q))"
proof (induction inps)
  case Nil
  show ?case by (simp add: known_devices_Nil)
next
  case (Cons inp inps)
  show ?case
  proof (cases "vtype (h inp)")
    case (TensorType dv p)
    then show ?thesis using Cons.IH by (cases dv) (auto simp: known_devices_Cons)
  qed (use Cons.IH in \<open>simp_all add: known_devices_Cons\<close>)
qed

lemma propWithNoDevice_loop_None:
  "propWithNoDevice_loop inps None h =
     (case known_devices inps h of
        [] \<Rightarrow> Inr None
      | P # rest \<Rightarrow>
          (case find (\<lambda>Q. Q \<noteq> P) rest of
             None \<Rightarrow> Inr (Some P)
           | Some Q \<Rightarrow> Inl (ExpectedDevice P Q)))"
proof (induction inps)
  case Nil
  show ?case by (simp add: known_devices_Nil)
next
  case (Cons inp inps)
  show ?case
  proof (cases "vtype (h inp)")
    case (TensorType dv p)
    then show ?thesis using Cons.IH
      by (cases dv) (simp_all add: known_devices_Cons propWithNoDevice_loop_Some)
  qed (use Cons.IH in \<open>simp_all add: known_devices_Cons\<close>)
qed

lemma no_device_formal:
  assumes "\<forall>a\<in>set as. \<not> isDeviceArgumentType (arg_type a)"
  shows "defaultDeviceProp_loop as i n h = propWithNoDevice n h"
  by (rule scan_all_none) (use assms in simp)

lemma processNode_aten:
  assumes "is_aten (kind n)" and "maybeOperator n = Some op" and "device_prop_registry tp = []"
  shows "processNode tp n h =
           (if list_ex (\<lambda>v. is_TensorType (vtype (h v))) (outputs n)
            then defaultDeviceProp n h else Inr (False, h))"
proof -
  from assms(1) obtain nm where "kind n = aten nm" by (cases "kind n") simp_all
  with assms(2,3) show ?thesis
    by (simp add: processNode_def processAtenOps_def)
qed

section \<open>The claims of the specification\<close>

text \<open>
  Claim C9. Whenever the driver reaches a node whose kind is conditional-branch, loop,
  call-method or call-function, it aborts with "Loop/Call not handled": the node itself
  aborts whatever its outputs are (the test comes before the test for a tensor-typed
  output), and a sweep over a block that completes the nodes before it aborts there,
  whatever nodes follow.
\<close>

theorem C9_control_flow_and_calls_abort:
  assumes "kind n = prim_If \<or> kind n = prim_Loop \<or> kind n = prim_CallMethod
           \<or> kind n = prim_CallFunction"
  shows "processNode tp n h = Inl LoopCallNotHandled \<and>
         (processBlock tp pre h = Inr (c, h1) \<longrightarrow>
          processBlock tp (pre @ n # post) h = Inl LoopCallNotHandled)"
proof
  show "processNode tp n h = Inl LoopCallNotHandled"
    using assms by (simp add: processNode_def)
  show "processBlock tp pre h = Inr (c, h1) \<longrightarrow>
          processBlock tp (pre @ n # post) h = Inl LoopCallNotHandled"
  proof
    assume "processBlock tp pre h = Inr (c, h1)"
    then have p: "processBlock_loop tp pre False h = Inr (c, h1)"
      by (simp add: processBlock_def)
    have "processNode tp n h1 = Inl LoopCallNotHandled"
      using assms by (simp add: processNode_def)
    with p show "processBlock tp (pre @ n # post) h = Inl LoopCallNotHandled"
      by (simp add: processBlock_def processBlock_loop_append)
  qed
qed

theorem C9_witness:
  "(kind if_node = prim_If \<or> kind if_node = prim_Loop \<or> kind if_node = prim_CallMethod
      \<or> kind if_node = prim_CallFunction) \<and>
   outputs if_node = [] \<and>
   processNode (new_DeviceTypePropagationPass \<lparr>block = [add_node, if_node, to_node 0 3]\<rparr>)
       if_node ex_heap = Inl LoopCallNotHandled \<and>
   processBlock (new_DeviceTypePropagationPass \<lparr>block = [add_node, if_node, to_node 0 3]\<rparr>)
       [add_node] ex_heap
     = Inr (True, ex_heap(2 := \<lparr>vtype = TensorType (Some CPU) 9, ivalue = None\<rparr>)) \<and>
   processBlock (new_DeviceTypePropagationPass \<lparr>block = [add_node, if_node, to_node 0 3]\<rparr>)
       ([add_node] @ if_node # [to_node 0 3]) ex_heap
     = Inl LoopCallNotHandled"
proof -
  let ?tp = "new_DeviceTypePropagationPass \<lparr>block = [add_node, if_node, to_node 0 3]\<rparr>"
  have k: "kind if_node = prim_If \<or> kind if_node = prim_Loop \<or> kind if_node = prim_CallMethod
      \<or> kind if_node = prim_CallFunction"
    by (simp add: if_node_def)
  have r: "processBlock ?tp [add_node] ex_heap
     = Inr (True, ex_heap(2 := \<lparr>vtype = TensorType (Some CPU) 9, ivalue = None\<rparr>))"
    by (simp add: ex_defs pass_defs)
  have o: "outputs if_node = []" by (simp add: if_node_def)
  from C9_control_flow_and_calls_abort [OF k, of ?tp ex_heap
      "[add_node]" True "ex_heap(2 := \<lparr>vtype = TensorType (Some CPU) 9, ivalue = None\<rparr>)" "[to_node 0 3]"]
    k r o
  show ?thesis by blast
qed

text \<open>
  Claim C10. The fan-out helper calls the setter only on outputs whose type is a tensor
  type, and it is the only caller of the setter in the pass. The setter by itself fails
  with "Expecting a tensor type" on a value that is not tensor-typed; neither the helper
  nor a sweep of the driver over a block ever fails with that assertion.
\<close>

theorem C10_expecting_tensor_type_unreachable:
  "(\<not> is_TensorType (vtype (h v)) \<longrightarrow> setDeviceType v dev ow h = Inl ExpectingTensorType) \<and>
   setReturnsToDevice n dev h \<noteq> Inl ExpectingTensorType \<and>
   processBlock (new_DeviceTypePropagationPass graph) blk h \<noteq> Inl ExpectingTensorType"
proof (intro conjI impI)
  assume "\<not> is_TensorType (vtype (h v))"
  then show "setDeviceType v dev ow h = Inl ExpectingTensorType"
    by (simp add: setDeviceType_def)
next
  show "setReturnsToDevice n dev h \<noteq> Inl ExpectingTensorType"
    using setReturnsToDevice_Inl [of n dev h ExpectingTensorType] by auto
next
  show "processBlock (new_DeviceTypePropagationPass graph) blk h \<noteq> Inl ExpectingTensorType"
    using processBlock_loop_Inl [OF new_pass_registry, of graph blk False h ExpectingTensorType]
    by (auto simp: processBlock_def)
qed

theorem C10_witness:
  "\<not> is_TensorType (vtype (ex_heap 6)) \<and>
   setDeviceType 6 CPU False ex_heap = Inl ExpectingTensorType \<and>
   setReturnsToDevice list_construct_node CPU ex_heap \<noteq> Inl ExpectingTensorType \<and>
   processBlock (new_DeviceTypePropagationPass \<lparr>block = [list_construct_node, add_node]\<rparr>)
       [list_construct_node, add_node] ex_heap \<noteq> Inl ExpectingTensorType"
proof -
  have "\<not> is_TensorType (vtype (ex_heap 6))" by (simp add: ex_heap_def)
  with C10_expecting_tensor_type_unreachable [of ex_heap 6 CPU False list_construct_node
      "\<lparr>block = [list_construct_node, add_node]\<rparr>" "[list_construct_node, add_node]"]
  show ?thesis by blast
qed

text \<open>
  Claim C7. A value whose tensor type carries a placement keeps it: setting the same
  placement reports "unchanged" and leaves the heap as it is, setting a different one
  without the overwrite flag is the assertion failure "Expected device to be ... but
  found ...", and neither the fan-out over a node's outputs nor a sweep of the driver
  over a block (both call the setter without the flag) removes or replaces the placement.
\<close>

theorem C7_placement_never_overwritten:
  assumes "vtype (h v) = TensorType (Some d) p"
  shows "setDeviceType v d False h = Inr (False, h) \<and>
         (d' \<noteq> d \<longrightarrow> setDeviceType v d' False h = Inl (ExpectedDevice d' d)) \<and>
         (setReturnsToDevice n dev h = Inr (c, h') \<longrightarrow> vtype (h' v) = TensorType (Some d) p) \<and>
         (processBlock (new_DeviceTypePropagationPass graph) blk h = Inr (c', h'') \<longrightarrow>
            vtype (h'' v) = TensorType (Some d) p)"
proof (intro conjI impI)
  show "setDeviceType v d False h = Inr (False, h)"
    using assms by (simp add: setDeviceType_def)
  show "setDeviceType v d' False h = Inl (ExpectedDevice d' d)" if "d' \<noteq> d"
    using assms that by (simp add: setDeviceType_def)
  have dv: "device (vtype (h v)) = Some d" using assms by simp
  show "vtype (h' v) = TensorType (Some d) p" if "setReturnsToDevice n dev h = Inr (c, h')"
    using refines_device_Some [OF setReturnsToDevice_sound(1) [OF that] dv] assms by simp
  show "vtype (h'' v) = TensorType (Some d) p"
    if "processBlock (new_DeviceTypePropagationPass graph) blk h = Inr (c', h'')"
    using refines_device_Some [OF processBlock_sound(1) [OF that] dv] assms by simp
qed

theorem C7_witness:
  "vtype ((ex_heap(2 := \<lparr>vtype = TensorType (Some CPU) 9, ivalue = None\<rparr>)) 2) = TensorType (Some CPU) 9 \<and>
   setDeviceType 2 CPU False (ex_heap(2 := \<lparr>vtype = TensorType (Some CPU) 9, ivalue = None\<rparr>))
     = Inr (False, ex_heap(2 := \<lparr>vtype = TensorType (Some CPU) 9, ivalue = None\<rparr>)) \<and>
   CUDA 0 \<noteq> CPU \<and>
   setDeviceType 2 (CUDA 0) False (ex_heap(2 := \<lparr>vtype = TensorType (Some CPU) 9, ivalue = None\<rparr>))
     = Inl (ExpectedDevice (CUDA 0) CPU) \<and>
   setReturnsToDevice add_node CPU (ex_heap(2 := \<lparr>vtype = TensorType (Some CPU) 9, ivalue = None\<rparr>))
     = Inr (False, ex_heap(2 := \<lparr>vtype = TensorType (Some CPU) 9, ivalue = None\<rparr>)) \<and>
   processBlock (new_DeviceTypePropagationPass \<lparr>block = [add_node]\<rparr>) [add_node] (ex_heap(2 := \<lparr>vtype = TensorType (Some CPU) 9, ivalue = None\<rparr>))
     = Inr (False, ex_heap(2 := \<lparr>vtype = TensorType (Some CPU) 9, ivalue = None\<rparr>))"
proof -
  let ?h = "ex_heap(2 := \<lparr>vtype = TensorType (Some CPU) 9, ivalue = None\<rparr>)"
  have a: "vtype (?h 2) = TensorType (Some CPU) 9" by simp
  have b: "CUDA 0 \<noteq> CPU" by simp
  have s: "setReturnsToDevice add_node CPU ?h = Inr (False, ?h)"
    by (simp add: ex_defs pass_defs)
  have r: "processBlock (new_DeviceTypePropagationPass \<lparr>block = [add_node]\<rparr>) [add_node] ?h
     = Inr (False, ?h)"
    by (simp add: ex_defs pass_defs)
  from C7_placement_never_overwritten [where h = "?h" and v = 2 and d = CPU and p = 9
      and d' = "CUDA 0" and n = add_node and dev = CPU and c = False and h' = "?h"
      and graph = "\<lparr>block = [add_node]\<rparr>" and blk = "[add_node]" and c' = False and h'' = "?h"]
    a b s r
  show ?thesis by blast
qed


text \<open>
  Claim C6. On a block that lists definitions before uses, if one sweep of the driver
  completes, a second sweep on the resulting heap returns false and leaves the heap,
  hence every value's type, exactly as the first one left it.
\<close>

theorem C6_second_invocation_is_identity:
  assumes "defs_before_uses blk"
    and "processBlock (new_DeviceTypePropagationPass graph) blk h = Inr (c, h')"
  shows "processBlock (new_DeviceTypePropagationPass graph) blk h' = Inr (False, h')"
proof -
  from assms(2) have "processBlock_loop (new_DeviceTypePropagationPass graph) blk False h = Inr (c, h')"
    by (simp add: processBlock_def)
  from processBlock_loop_idem [OF new_pass_registry assms(1) this, of False]
  show ?thesis by (simp add: processBlock_def)
qed

theorem C6_witness:
  "defs_before_uses [add_node, to_node 0 4] \<and>
   processBlock (new_DeviceTypePropagationPass \<lparr>block = [add_node, to_node 0 4]\<rparr>)
       [add_node, to_node 0 4] ex_heap
     = Inr (True, ex_heap(2 := \<lparr>vtype = TensorType (Some CPU) 9, ivalue = None\<rparr>,
                          5 := \<lparr>vtype = TensorType (Some CPU) 7, ivalue = None\<rparr>)) \<and>
   processBlock (new_DeviceTypePropagationPass \<lparr>block = [add_node, to_node 0 4]\<rparr>)
       [add_node, to_node 0 4]
       (ex_heap(2 := \<lparr>vtype = TensorType (Some CPU) 9, ivalue = None\<rparr>,
                5 := \<lparr>vtype = TensorType (Some CPU) 7, ivalue = None\<rparr>))
     = Inr (False, ex_heap(2 := \<lparr>vtype = TensorType (Some CPU) 9, ivalue = None\<rparr>,
                           5 := \<lparr>vtype = TensorType (Some CPU) 7, ivalue = None\<rparr>))"
proof -
  have w: "defs_before_uses [add_node, to_node 0 4]"
    by (simp add: ex_defs)
  have r: "processBlock (new_DeviceTypePropagationPass \<lparr>block = [add_node, to_node 0 4]\<rparr>)
       [add_node, to_node 0 4] ex_heap
     = Inr (True, ex_heap(2 := \<lparr>vtype = TensorType (Some CPU) 9, ivalue = None\<rparr>,
                          5 := \<lparr>vtype = TensorType (Some CPU) 7, ivalue = None\<rparr>))"
    by (simp add: ex_defs pass_defs)
  from C6_second_invocation_is_identity [OF w r] w r show ?thesis by blast
qed

text \<open>
  The order of definitions and uses matters: on a list of nodes in which the first node
  uses the value \<open>5\<close> that the second one defines, the second sweep still changes a type.
  Such a list is not a block of a graph in SSA form.
\<close>

lemma second_sweep_on_use_before_definition:
  "\<not> defs_before_uses [add_node\<lparr>inputs := [5, 1]\<rparr>, to_node 0 4] \<and>
   processBlock (new_DeviceTypePropagationPass \<lparr>block = []\<rparr>)
       [add_node\<lparr>inputs := [5, 1]\<rparr>, to_node 0 4] ex_heap
     = Inr (True, ex_heap(5 := \<lparr>vtype = TensorType (Some CPU) 7, ivalue = None\<rparr>)) \<and>
   processBlock (new_DeviceTypePropagationPass \<lparr>block = []\<rparr>)
       [add_node\<lparr>inputs := [5, 1]\<rparr>, to_node 0 4]
       (ex_heap(5 := \<lparr>vtype = TensorType (Some CPU) 7, ivalue = None\<rparr>))
     = Inr (True, ex_heap(5 := \<lparr>vtype = TensorType (Some CPU) 7, ivalue = None\<rparr>,
                          2 := \<lparr>vtype = TensorType (Some CPU) 9, ivalue = None\<rparr>))"
  by (simp add: ex_defs pass_defs Let_def)

text \<open>
  Claim C1, as stated, fails: \<^verbatim>\<open>aten::to(self, device)\<close> has a formal of placement-argument
  type; with the device argument the constant none and \<open>self\<close> on the CPU, the default
  rule falls through to the input unification and gives the output the CPU; with \<open>self\<close>
  on another device the output follows it.
\<close>

theorem C1_counterexample:
  "isDeviceArgumentType (arg_type (arguments to_op ! 1)) \<and>
   maybeOperator (to_node 0 4) = Some to_op \<and>
   toIValue (inputs (to_node 0 4) ! 1) ex_heap = Some IVNone \<and>
   defaultDeviceProp (to_node 0 4) ex_heap
     = Inr (True, ex_heap(5 := \<lparr>vtype = TensorType (Some CPU) 7, ivalue = None\<rparr>)) \<and>
   defaultDeviceProp (to_node 0 4) (ex_heap(0 := \<lparr>vtype = TensorType (Some (CUDA 1)) 7, ivalue = None\<rparr>))
     = Inr (True, ex_heap(0 := \<lparr>vtype = TensorType (Some (CUDA 1)) 7, ivalue = None\<rparr>,
                          5 := \<lparr>vtype = TensorType (Some (CUDA 1)) 7, ivalue = None\<rparr>))"
  by (simp add: ex_defs pass_defs)

text \<open>
  Claim C1, amended. The default rule runs the input-unification fallback exactly when
  the scan finds no deciding formal: when the actual input of every formal of
  placement-argument type resolves to the constant none (in particular when the signature
  has no such formal), its result is the fallback's. When some formal of placement-argument
  type has an actual input that does not resolve to none, the first such formal decides
  the result by the scan alone: the placement of a device constant goes to the outputs,
  anything else is "no change"; the tensor inputs are not consulted.
\<close>

theorem C1_fallback_iff_no_deciding_formal:
  assumes "maybeOperator n = Some op"
  shows "((\<forall>k<length (arguments op). isDeviceArgumentType (arg_type (arguments op ! k)) \<longrightarrow>
             k < length (inputs n) \<and> toIValue (inputs n ! k) h = Some IVNone)
          \<longrightarrow> defaultDeviceProp n h = propWithNoDevice n h) \<and>
         (k < length (arguments op) \<and> isDeviceArgumentType (arg_type (arguments op ! k)) \<and>
          k < length (inputs n) \<and> toIValue (inputs n ! k) h \<noteq> Some IVNone \<and>
          (\<forall>j<k. isDeviceArgumentType (arg_type (arguments op ! j)) \<longrightarrow>
             j < length (inputs n) \<and> toIValue (inputs n ! j) h = Some IVNone)
          \<longrightarrow> defaultDeviceProp n h =
                (case toIValue (inputs n ! k) h of
                   Some (IVDevice d) \<Rightarrow> setReturnsToDevice n d h
                 | _ \<Rightarrow> Inr (False, h)))"
proof (intro conjI impI)
  assume "\<forall>k<length (arguments op). isDeviceArgumentType (arg_type (arguments op ! k)) \<longrightarrow>
             k < length (inputs n) \<and> toIValue (inputs n ! k) h = Some IVNone"
  then have "defaultDeviceProp_loop (arguments op) 0 n h = propWithNoDevice n h"
    by (intro scan_all_none) simp
  with assms show "defaultDeviceProp n h = propWithNoDevice n h"
    by (simp add: defaultDeviceProp_def)
next
  assume a: "k < length (arguments op) \<and> isDeviceArgumentType (arg_type (arguments op ! k)) \<and>
          k < length (inputs n) \<and> toIValue (inputs n ! k) h \<noteq> Some IVNone \<and>
          (\<forall>j<k. isDeviceArgumentType (arg_type (arguments op ! j)) \<longrightarrow>
             j < length (inputs n) \<and> toIValue (inputs n ! j) h = Some IVNone)"
  have "defaultDeviceProp_loop (arguments op) 0 n h =
           (case toIValue (inputs n ! (0 + k)) h of
              Some (IVDevice d) \<Rightarrow> setReturnsToDevice n d h
            | _ \<Rightarrow> Inr (False, h))"
    by (rule scan_first_decisive) (use a in simp_all)
  with assms show "defaultDeviceProp n h =
                (case toIValue (inputs n ! k) h of
                   Some (IVDevice d) \<Rightarrow> setReturnsToDevice n d h
                 | _ \<Rightarrow> Inr (False, h))"
    by (simp add: defaultDeviceProp_def)
qed

theorem C1_witness:
  "maybeOperator (to_node 0 4) = Some to_op \<and>
   length (arguments to_op) = 2 \<and>
   toIValue (inputs (to_node 0 4) ! 1) ex_heap = Some IVNone \<and>
   defaultDeviceProp (to_node 0 4) ex_heap = propWithNoDevice (to_node 0 4) ex_heap \<and>
   maybeOperator (to_node 0 3) = Some to_op \<and>
   isDeviceArgumentType (arg_type (arguments to_op ! 1)) \<and>
   \<not> isDeviceArgumentType (arg_type (arguments to_op ! 0)) \<and>
   toIValue (inputs (to_node 0 3) ! 1) ex_heap = Some (IVDevice (CUDA 0)) \<and>
   defaultDeviceProp (to_node 0 3) ex_heap = setReturnsToDevice (to_node 0 3) (CUDA 0) ex_heap"
proof -
  have o4: "maybeOperator (to_node 0 4) = Some to_op" by (simp add: to_node_def)
  have o3: "maybeOperator (to_node 0 3) = Some to_op" by (simp add: to_node_def)
  have d1: "isDeviceArgumentType (arg_type (arguments to_op ! 1))"
    by (simp add: to_op_def isDeviceArgumentType.simps)
  have d0: "\<not> isDeviceArgumentType (arg_type (arguments to_op ! 0))"
    by (simp add: to_op_def isDeviceArgumentType.simps)
  have len: "length (arguments to_op) = 2" by (simp add: to_op_def)
  have v4: "toIValue (inputs (to_node 0 4) ! 1) ex_heap = Some IVNone"
    by (simp add: ex_defs toIValue_def)
  have v3: "toIValue (inputs (to_node 0 3) ! 1) ex_heap = Some (IVDevice (CUDA 0))"
    by (simp add: ex_defs toIValue_def)
  have l4: "length (inputs (to_node 0 4)) = 2" and l3: "length (inputs (to_node 0 3)) = 2"
    by (simp_all add: to_node_def)
  have all4: "\<forall>k<length (arguments to_op). isDeviceArgumentType (arg_type (arguments to_op ! k)) \<longrightarrow>
      k < length (inputs (to_node 0 4)) \<and> toIValue (inputs (to_node 0 4) ! k) ex_heap = Some IVNone"
    using d0 v4 l4 by (simp add: len less_Suc_eq numeral_2_eq_2)
  have pre3: "\<forall>j<1. isDeviceArgumentType (arg_type (arguments to_op ! j)) \<longrightarrow>
      j < length (inputs (to_node 0 3)) \<and> toIValue (inputs (to_node 0 3) ! j) ex_heap = Some IVNone"
    using d0 by simp
  from C1_fallback_iff_no_deciding_formal [OF o4, of ex_heap 1] all4
  have r4: "defaultDeviceProp (to_node 0 4) ex_heap = propWithNoDevice (to_node 0 4) ex_heap"
    by blast
  from C1_fallback_iff_no_deciding_formal [OF o3, of ex_heap 1] d1 v3 l3 len pre3
  have r3: "defaultDeviceProp (to_node 0 3) ex_heap = setReturnsToDevice (to_node 0 3) (CUDA 0) ex_heap"
    by simp
  from o4 len v4 r4 o3 d1 d0 v3 r3 show ?thesis by blast
qed

text \<open>
  Claim C3, as stated, fails in three ways. With the device argument of
  \<^verbatim>\<open>aten::to\<close> the constant \<open>CUDA 0\<close>: an output that already carries \<open>CUDA 0\<close> makes the
  node report "unchanged"; an output that carries the CPU makes it abort. And a formal of
  placement-argument type bound to a concrete placement does not decide when an earlier
  such formal is bound to a value that is not a constant: the node reports "no change"
  and the output keeps no placement.
\<close>

theorem C3_counterexample:
  "isDeviceArgumentType (arg_type (arguments to_op ! 1)) \<and>
   toIValue (inputs (to_node 0 3) ! 1) ex_heap = Some (IVDevice (CUDA 0)) \<and>
   defaultDeviceProp (to_node 0 3) (ex_heap(5 := \<lparr>vtype = TensorType (Some (CUDA 0)) 7, ivalue = None\<rparr>))
     = Inr (False, ex_heap(5 := \<lparr>vtype = TensorType (Some (CUDA 0)) 7, ivalue = None\<rparr>)) \<and>
   defaultDeviceProp (to_node 0 3) (ex_heap(5 := \<lparr>vtype = TensorType (Some CPU) 7, ivalue = None\<rparr>))
     = Inl (ExpectedDevice (CUDA 0) CPU) \<and>
   isDeviceArgumentType (arg_type (arguments two_device_op ! 2)) \<and>
   toIValue (inputs two_device_node ! 2) ex_heap = Some (IVDevice (CUDA 0)) \<and>
   defaultDeviceProp two_device_node ex_heap = Inr (False, ex_heap) \<and>
   vtype (ex_heap 5) = TensorType None 7"
  by (simp add: ex_defs pass_defs)

text \<open>
  Claim C3, amended. Let the first formal of placement-argument type whose actual input
  does not resolve to none resolve to a concrete placement \<open>Q\<close>. Then the node does what
  the fan-out of \<open>Q\<close> over its outputs does, whatever the types of its inputs are and
  whatever formals follow: if a tensor-typed output already carries a placement other than
  \<open>Q\<close> it aborts; otherwise every tensor-typed output carries \<open>Q\<close> afterwards, the node
  reports "changed" exactly when a tensor-typed output carried no placement before, and
  every value that is not an output of the node (in SSA form, every input) is untouched.
\<close>

theorem C3_explicit_device_argument_decides:
  assumes "maybeOperator n = Some op"
    and "k < length (arguments op)"
    and "isDeviceArgumentType (arg_type (arguments op ! k))"
    and "k < length (inputs n)"
    and "toIValue (inputs n ! k) h = Some (IVDevice Q)"
    and "\<forall>j<k. isDeviceArgumentType (arg_type (arguments op ! j)) \<longrightarrow>
           j < length (inputs n) \<and> toIValue (inputs n ! j) h = Some IVNone"
  shows "(if \<exists>v\<in>set (outputs n). \<exists>P. device (vtype (h v)) = Some P \<and> P \<noteq> Q
          then \<exists>P. P \<noteq> Q \<and> defaultDeviceProp n h = Inl (ExpectedDevice Q P)
          else defaultDeviceProp n h =
                 Inr (\<exists>v\<in>set (outputs n). is_TensorType (vtype (h v)) \<and> device (vtype (h v)) = None,
                      fanout (outputs n) Q h)) \<and>
         (\<forall>v\<in>set (outputs n). is_TensorType (vtype (h v)) \<longrightarrow>
            device (vtype (fanout (outputs n) Q h v)) = Some Q) \<and>
         (\<forall>v. v \<notin> set (outputs n) \<longrightarrow> fanout (outputs n) Q h v = h v)"
proof (intro conjI)
  have "defaultDeviceProp_loop (arguments op) 0 n h =
           (case toIValue (inputs n ! (0 + k)) h of
              Some (IVDevice d) \<Rightarrow> setReturnsToDevice n d h
            | _ \<Rightarrow> Inr (False, h))"
    by (rule scan_first_decisive) (use assms in simp_all)
  with assms(1,5) have e: "defaultDeviceProp n h = setReturnsToDevice n Q h"
    by (simp add: defaultDeviceProp_def)
  show "if \<exists>v\<in>set (outputs n). \<exists>P. device (vtype (h v)) = Some P \<and> P \<noteq> Q
          then \<exists>P. P \<noteq> Q \<and> defaultDeviceProp n h = Inl (ExpectedDevice Q P)
          else defaultDeviceProp n h =
                 Inr (\<exists>v\<in>set (outputs n). is_TensorType (vtype (h v)) \<and> device (vtype (h v)) = None,
                      fanout (outputs n) Q h)"
    unfolding e by (rule setReturnsToDevice_char)
  show "\<forall>v\<in>set (outputs n). is_TensorType (vtype (h v)) \<longrightarrow>
            device (vtype (fanout (outputs n) Q h v)) = Some Q"
    by (simp add: fanout_device)
  show "\<forall>v. v \<notin> set (outputs n) \<longrightarrow> fanout (outputs n) Q h v = h v"
    by (simp add: fanout_frame)
qed

theorem C3_witness:
  "maybeOperator (to_node 0 3) = Some to_op \<and>
   isDeviceArgumentType (arg_type (arguments to_op ! 1)) \<and>
   toIValue (inputs (to_node 0 3) ! 1) ex_heap = Some (IVDevice (CUDA 0)) \<and>
   vtype (ex_heap 0) = TensorType (Some CPU) 7 \<and>
   defaultDeviceProp (to_node 0 3) ex_heap = Inr (True, fanout (outputs (to_node 0 3)) (CUDA 0) ex_heap) \<and>
   vtype (fanout (outputs (to_node 0 3)) (CUDA 0) ex_heap 5) = TensorType (Some (CUDA 0)) 7 \<and>
   fanout (outputs (to_node 0 3)) (CUDA 0) ex_heap 0 = ex_heap 0"
proof -
  have o3: "maybeOperator (to_node 0 3) = Some to_op" by (simp add: to_node_def)
  have len: "1 < length (arguments to_op)" by (simp add: to_op_def)
  have d1: "isDeviceArgumentType (arg_type (arguments to_op ! 1))"
    by (simp add: to_op_def isDeviceArgumentType.simps)
  have d0: "\<not> isDeviceArgumentType (arg_type (arguments to_op ! 0))"
    by (simp add: to_op_def isDeviceArgumentType.simps)
  have l3: "1 < length (inputs (to_node 0 3))" by (simp add: to_node_def)
  have v3: "toIValue (inputs (to_node 0 3) ! 1) ex_heap = Some (IVDevice (CUDA 0))"
    by (simp add: ex_defs toIValue_def)
  have pre3: "\<forall>j<1. isDeviceArgumentType (arg_type (arguments to_op ! j)) \<longrightarrow>
      j < length (inputs (to_node 0 3)) \<and> toIValue (inputs (to_node 0 3) ! j) ex_heap = Some IVNone"
    using d0 by simp
  have noconf: "\<not> (\<exists>v\<in>set (outputs (to_node 0 3)). \<exists>P. device (vtype (ex_heap v)) = Some P \<and> P \<noteq> CUDA 0)"
    by (simp add: ex_defs)
  have fresh: "\<exists>v\<in>set (outputs (to_node 0 3)). is_TensorType (vtype (ex_heap v)) \<and> device (vtype (ex_heap v)) = None"
    by (simp add: ex_defs)
  have a0: "vtype (ex_heap 0) = TensorType (Some CPU) 7" by (simp add: ex_heap_def)
  have f5: "vtype (fanout (outputs (to_node 0 3)) (CUDA 0) ex_heap 5) = TensorType (Some (CUDA 0)) 7"
    by (simp add: ex_defs fanout_def)
  have f0: "fanout (outputs (to_node 0 3)) (CUDA 0) ex_heap 0 = ex_heap 0"
    by (simp add: ex_defs fanout_def)
  from C3_explicit_device_argument_decides [OF o3 len d1 l3 v3 pre3] noconf fresh
  have "defaultDeviceProp (to_node 0 3) ex_heap = Inr (True, fanout (outputs (to_node 0 3)) (CUDA 0) ex_heap)"
    by simp
  with o3 d1 v3 a0 f5 f0 show ?thesis by blast
qed

text \<open>
  Claim C4, and how the code falls short of it. The second switch of \<^verbatim>\<open>processNode\<close> lists
  \<^verbatim>\<open>prim::ListConstruct\<close> next to \<^verbatim>\<open>prim::ListUnpack\<close> under the assertion "not supported
  IR", and a list destructuring into tensors does abort there. But the test for a
  tensor-typed output comes first and returns "no change": a list construction over the
  tensors \<open>0\<close> and \<open>1\<close> has a single output, of list type, so it never reaches the
  assertion; it is skipped and the sweep goes on to the next node.
\<close>

theorem C4_list_construct_is_skipped:
  "kind list_construct_node = prim_ListConstruct \<and>
   is_TensorType (vtype (ex_heap 0)) \<and> is_TensorType (vtype (ex_heap 1)) \<and>
   vtype (ex_heap 6) = ListType (TensorType None 0) \<and>
   processNode (new_DeviceTypePropagationPass \<lparr>block = [list_construct_node, add_node]\<rparr>)
       list_construct_node ex_heap = Inr (False, ex_heap) \<and>
   processBlock (new_DeviceTypePropagationPass \<lparr>block = [list_construct_node, add_node]\<rparr>)
       [list_construct_node, add_node] ex_heap
     = Inr (True, ex_heap(2 := \<lparr>vtype = TensorType (Some CPU) 9, ivalue = None\<rparr>)) \<and>
   kind list_unpack_node = prim_ListUnpack \<and>
   processNode (new_DeviceTypePropagationPass \<lparr>block = [list_construct_node, add_node]\<rparr>)
       list_unpack_node ex_heap = Inl NotSupportedIR"
  by (simp add: ex_defs pass_defs)

text \<open>
  Claim C2, as stated, fails: \<^verbatim>\<open>aten::add\<close> has no formal of placement-argument type; with
  inputs carrying the placements CPU and none, the reference placement CPU is established,
  yet when the output already carries the CPU the node reports "unchanged", and when the
  output carries another placement the node aborts.
\<close>

theorem C2_counterexample:
  "\<not> list_ex (\<lambda>a. isDeviceArgumentType (arg_type a)) (arguments add_op) \<and>
   maybeOperator add_node = Some add_op \<and>
   known_devices (inputs add_node) (ex_heap(2 := \<lparr>vtype = TensorType (Some CPU) 9, ivalue = None\<rparr>)) = [CPU] \<and>
   defaultDeviceProp add_node (ex_heap(2 := \<lparr>vtype = TensorType (Some CPU) 9, ivalue = None\<rparr>))
     = Inr (False, ex_heap(2 := \<lparr>vtype = TensorType (Some CPU) 9, ivalue = None\<rparr>)) \<and>
   defaultDeviceProp add_node (ex_heap(2 := \<lparr>vtype = TensorType (Some (CUDA 0)) 9, ivalue = None\<rparr>))
     = Inl (ExpectedDevice CPU (CUDA 0))"
  by (simp add: ex_defs pass_defs known_devices_def map_filter_simps)

text \<open>
  Claim C2, amended. For a computational node whose signature has no formal of
  placement-argument type, let the known placements be those carried by its tensor-typed
  inputs, in order. If there is none, the node reports "no change". Otherwise the first
  one, \<open>P\<close>, is the reference; if a later one differs from \<open>P\<close> the node aborts with the
  first that differs; if all equal \<open>P\<close>, the node aborts when a tensor-typed output already
  carries a placement other than \<open>P\<close>, and otherwise gives \<open>P\<close> to every tensor-typed
  output and reports "changed" exactly when a tensor-typed output carried no placement
  before.
\<close>

theorem C2_unification_of_input_placements:
  assumes "maybeOperator n = Some op"
    and "\<forall>a\<in>set (arguments op). \<not> isDeviceArgumentType (arg_type a)"
  shows "(known_devices (inputs n) h = [] \<longrightarrow> defaultDeviceProp n h = Inr (False, h)) \<and>
         (\<forall>P rest. known_devices (inputs n) h = P # rest \<longrightarrow>
            (case find (\<lambda>Q. Q \<noteq> P) rest of
               Some Q \<Rightarrow> defaultDeviceProp n h = Inl (ExpectedDevice P Q)
             | None \<Rightarrow>
                 (if \<exists>v\<in>set (outputs n). \<exists>Q. device (vtype (h v)) = Some Q \<and> Q \<noteq> P
                  then \<exists>Q. Q \<noteq> P \<and> defaultDeviceProp n h = Inl (ExpectedDevice P Q)
                  else defaultDeviceProp n h =
                         Inr (\<exists>v\<in>set (outputs n). is_TensorType (vtype (h v)) \<and> device (vtype (h v)) = None,
                              fanout (outputs n) P h))))"
proof -
  have e: "defaultDeviceProp n h = propWithNoDevice n h"
    using assms(1) no_device_formal [OF assms(2)] by (simp add: defaultDeviceProp_def)
  show ?thesis
  proof (intro conjI impI allI)
    assume "known_devices (inputs n) h = []"
    then show "defaultDeviceProp n h = Inr (False, h)"
      unfolding e by (simp add: propWithNoDevice_def propWithNoDevice_loop_None)
  next
    fix P rest
    assume k: "known_devices (inputs n) h = P # rest"
    show "case find (\<lambda>Q. Q \<noteq> P) rest of
               Some Q \<Rightarrow> defaultDeviceProp n h = Inl (ExpectedDevice P Q)
             | None \<Rightarrow>
                 (if \<exists>v\<in>set (outputs n). \<exists>Q. device (vtype (h v)) = Some Q \<and> Q \<noteq> P
                  then \<exists>Q. Q \<noteq> P \<and> defaultDeviceProp n h = Inl (ExpectedDevice P Q)
                  else defaultDeviceProp n h =
                         Inr (\<exists>v\<in>set (outputs n). is_TensorType (vtype (h v)) \<and> device (vtype (h v)) = None,
                              fanout (outputs n) P h))"
    proof (cases "find (\<lambda>Q. Q \<noteq> P) rest")
      case (Some Q)
      with k show ?thesis
        unfolding e by (simp add: propWithNoDevice_def propWithNoDevice_loop_None)
    next
      case None
      with k have "propWithNoDevice n h = setReturnsToDevice n P h"
        by (simp add: propWithNoDevice_def propWithNoDevice_loop_None)
      with None setReturnsToDevice_char [of n h P] show ?thesis
        unfolding e by simp
    qed
  qed
qed

theorem C2_witness:
  "maybeOperator add_node = Some add_op \<and>
   \<not> list_ex (\<lambda>a. isDeviceArgumentType (arg_type a)) (arguments add_op) \<and>
   known_devices (inputs add_node) ex_heap = CPU # [] \<and>
   defaultDeviceProp add_node ex_heap = Inr (True, fanout (outputs add_node) CPU ex_heap) \<and>
   vtype (fanout (outputs add_node) CPU ex_heap 2) = TensorType (Some CPU) 9"
proof -
  have o: "maybeOperator add_node = Some add_op" by (simp add: add_node_def)
  have nd: "\<forall>a\<in>set (arguments add_op). \<not> isDeviceArgumentType (arg_type a)"
    by (simp add: add_op_def isDeviceArgumentType.simps)
  have k: "known_devices (inputs add_node) ex_heap = CPU # []"
    by (simp add: ex_defs known_devices_def map_filter_simps)
  have noconf: "\<not> (\<exists>v\<in>set (outputs add_node). \<exists>Q. device (vtype (ex_heap v)) = Some Q \<and> Q \<noteq> CPU)"
    by (simp add: ex_defs)
  have fresh: "\<exists>v\<in>set (outputs add_node). is_TensorType (vtype (ex_heap v)) \<and> device (vtype (ex_heap v)) = None"
    by (simp add: ex_defs)
  have f2: "vtype (fanout (outputs add_node) CPU ex_heap 2) = TensorType (Some CPU) 9"
    by (simp add: ex_defs fanout_def)
  from C2_unification_of_input_placements [OF o nd, of ex_heap] k
  have "case find (\<lambda>Q. Q \<noteq> CPU) [] of
               Some Q \<Rightarrow> defaultDeviceProp add_node ex_heap = Inl (ExpectedDevice CPU Q)
             | None \<Rightarrow>
                 (if \<exists>v\<in>set (outputs add_node). \<exists>Q. device (vtype (ex_heap v)) = Some Q \<and> Q \<noteq> CPU
                  then \<exists>Q. Q \<noteq> CPU \<and> defaultDeviceProp add_node ex_heap = Inl (ExpectedDevice CPU Q)
                  else defaultDeviceProp add_node ex_heap =
                         Inr (\<exists>v\<in>set (outputs add_node). is_TensorType (vtype (ex_heap v)) \<and> device (vtype (ex_heap v)) = None,
                              fanout (outputs add_node) CPU ex_heap))"
    by blast
  with noconf fresh have "defaultDeviceProp add_node ex_heap = Inr (True, fanout (outputs add_node) CPU ex_heap)"
    by simp
  moreover have "\<not> list_ex (\<lambda>a. isDeviceArgumentType (arg_type a)) (arguments add_op)"
    using nd by (simp add: list_ex_iff)
  ultimately show ?thesis using o k f2 by blast
qed

text \<open>
  Claim C8, as stated, fails on two of its four conditions. A device argument that
  resolves to none does not give "no change": \<^verbatim>\<open>aten::to\<close> with \<open>self\<close> on the CPU and the
  device argument none gives its output the CPU and the sweep returns true. And "no
  tensor-typed input carries a known placement" does not give "no change" either when a
  device argument is a device constant: with \<open>self\<close> carrying no placement and the device
  argument \<open>CUDA 0\<close> the output receives \<open>CUDA 0\<close>.
\<close>

theorem C8_counterexample:
  "toIValue (inputs (to_node 0 4) ! 1) ex_heap = Some IVNone \<and>
   processNode (new_DeviceTypePropagationPass \<lparr>block = [to_node 0 4]\<rparr>) (to_node 0 4) ex_heap
     = Inr (True, ex_heap(5 := \<lparr>vtype = TensorType (Some CPU) 7, ivalue = None\<rparr>)) \<and>
   processBlock (new_DeviceTypePropagationPass \<lparr>block = [to_node 0 4]\<rparr>) [to_node 0 4] ex_heap
     = Inr (True, ex_heap(5 := \<lparr>vtype = TensorType (Some CPU) 7, ivalue = None\<rparr>)) \<and>
   known_devices (inputs (to_node 1 3)) ex_heap = [] \<and>
   processNode (new_DeviceTypePropagationPass \<lparr>block = [to_node 1 3]\<rparr>) (to_node 1 3) ex_heap
     = Inr (True, ex_heap(5 := \<lparr>vtype = TensorType (Some (CUDA 0)) 7, ivalue = None\<rparr>)) \<and>
   processBlock (new_DeviceTypePropagationPass \<lparr>block = [to_node 1 3]\<rparr>) [to_node 1 3] ex_heap
     = Inr (True, ex_heap(5 := \<lparr>vtype = TensorType (Some (CUDA 0)) 7, ivalue = None\<rparr>))"
  by (simp add: ex_defs pass_defs known_devices_def map_filter_simps)

text \<open>
  Claim C8, amended. Each of the following conditions on a computational node (with an
  operator, no custom rule registered) yields the non-fatal result "no change" for that
  node, and the sweep goes on to the next node with its flag as it was: the first formal
  of placement-argument type whose actual input does not resolve to none resolves to a
  value that is not a constant; it resolves to a constant that is not a placement; or the
  actual input of every formal of placement-argument type resolves to none (or there is
  no such formal) and no tensor-typed input carries a known placement.
\<close>

theorem C8_cannot_infer_is_no_change:
  assumes "is_aten (kind n)" and "maybeOperator n = Some op" and "device_prop_registry tp = []"
    and "(k < length (arguments op) \<and> isDeviceArgumentType (arg_type (arguments op ! k)) \<and>
          k < length (inputs n) \<and>
          (\<forall>j<k. isDeviceArgumentType (arg_type (arguments op ! j)) \<longrightarrow>
             j < length (inputs n) \<and> toIValue (inputs n ! j) h = Some IVNone) \<and>
          (toIValue (inputs n ! k) h = None \<or>
           (\<exists>iv. toIValue (inputs n ! k) h = Some iv \<and> iv \<noteq> IVNone \<and> (\<forall>d. iv \<noteq> IVDevice d))))
         \<or> ((\<forall>k<length (arguments op). isDeviceArgumentType (arg_type (arguments op ! k)) \<longrightarrow>
                k < length (inputs n) \<and> toIValue (inputs n ! k) h = Some IVNone) \<and>
             known_devices (inputs n) h = [])"
  shows "defaultDeviceProp n h = Inr (False, h) \<and>
         processNode tp n h = Inr (False, h) \<and>
         processBlock_loop tp (n # ns) changed h = processBlock_loop tp ns changed h"
proof -
  from assms(4) have d: "defaultDeviceProp n h = Inr (False, h)"
  proof
    assume a: "k < length (arguments op) \<and> isDeviceArgumentType (arg_type (arguments op ! k)) \<and>
          k < length (inputs n) \<and>
          (\<forall>j<k. isDeviceArgumentType (arg_type (arguments op ! j)) \<longrightarrow>
             j < length (inputs n) \<and> toIValue (inputs n ! j) h = Some IVNone) \<and>
          (toIValue (inputs n ! k) h = None \<or>
           (\<exists>iv. toIValue (inputs n ! k) h = Some iv \<and> iv \<noteq> IVNone \<and> (\<forall>d. iv \<noteq> IVDevice d)))"
    then have nn: "toIValue (inputs n ! (0 + k)) h \<noteq> Some IVNone" by auto
    have "defaultDeviceProp_loop (arguments op) 0 n h =
           (case toIValue (inputs n ! (0 + k)) h of
              Some (IVDevice d) \<Rightarrow> setReturnsToDevice n d h
            | _ \<Rightarrow> Inr (False, h))"
      by (rule scan_first_decisive) (use a nn in simp_all)
    moreover have "(case toIValue (inputs n ! (0 + k)) h of
              Some (IVDevice d) \<Rightarrow> setReturnsToDevice n d h
            | _ \<Rightarrow> Inr (False, h)) = Inr (False, h)"
      using a by (auto split: option.split IValue.split)
    ultimately show ?thesis using assms(2) by (simp add: defaultDeviceProp_def)
  next
    assume b: "(\<forall>k<length (arguments op). isDeviceArgumentType (arg_type (arguments op ! k)) \<longrightarrow>
                k < length (inputs n) \<and> toIValue (inputs n ! k) h = Some IVNone) \<and>
             known_devices (inputs n) h = []"
    then have "defaultDeviceProp_loop (arguments op) 0 n h = propWithNoDevice n h"
      by (intro scan_all_none) simp
    moreover from b have "propWithNoDevice n h = Inr (False, h)"
      by (simp add: propWithNoDevice_def propWithNoDevice_loop_None)
    ultimately show ?thesis using assms(2) by (simp add: defaultDeviceProp_def)
  qed
  have p: "processNode tp n h = Inr (False, h)"
    using processNode_aten [OF assms(1,2,3), of h] d by simp
  from d p show ?thesis by simp
qed

theorem C8_witness:
  "is_aten (kind (to_node 0 7)) \<and> maybeOperator (to_node 0 7) = Some to_op \<and>
   device_prop_registry (new_DeviceTypePropagationPass \<lparr>block = []\<rparr>) = [] \<and>
   toIValue (inputs (to_node 0 7) ! 1) ex_heap = None \<and>
   defaultDeviceProp (to_node 0 7) ex_heap = Inr (False, ex_heap) \<and>
   processBlock_loop (new_DeviceTypePropagationPass \<lparr>block = []\<rparr>) (to_node 0 7 # [add_node]) False ex_heap
     = processBlock_loop (new_DeviceTypePropagationPass \<lparr>block = []\<rparr>) [add_node] False ex_heap \<and>
   toIValue (inputs (to_node 0 8) ! 1) ex_heap = Some (IVString ''cuda:0'') \<and>
   defaultDeviceProp (to_node 0 8) ex_heap = Inr (False, ex_heap) \<and>
   toIValue (inputs (to_node 1 4) ! 1) ex_heap = Some IVNone \<and>
   known_devices (inputs (to_node 1 4)) ex_heap = [] \<and>
   defaultDeviceProp (to_node 1 4) ex_heap = Inr (False, ex_heap)"
proof -
  let ?tp = "new_DeviceTypePropagationPass \<lparr>block = []\<rparr>"
  have reg: "device_prop_registry ?tp = []" by (rule new_pass_registry)
  have at: "is_aten (kind (to_node s a))" for s a by (simp add: to_node_def)
  have o: "maybeOperator (to_node s a) = Some to_op" for s a by (simp add: to_node_def)
  have len: "1 < length (arguments to_op)" "length (arguments to_op) = 2" by (simp_all add: to_op_def)
  have li: "1 < length (inputs (to_node s a))" "length (inputs (to_node s a)) = 2" for s a
    by (simp_all add: to_node_def)
  have d1: "isDeviceArgumentType (arg_type (arguments to_op ! 1))"
    by (simp add: to_op_def isDeviceArgumentType.simps)
  have d0: "\<not> isDeviceArgumentType (arg_type (arguments to_op ! 0))"
    by (simp add: to_op_def isDeviceArgumentType.simps)
  have v7: "toIValue (inputs (to_node 0 7) ! 1) ex_heap = None"
    by (simp add: ex_defs toIValue_def)
  have v8: "toIValue (inputs (to_node 0 8) ! 1) ex_heap = Some (IVString ''cuda:0'')"
    by (simp add: ex_defs toIValue_def)
  have v4: "toIValue (inputs (to_node 1 4) ! 1) ex_heap = Some IVNone"
    by (simp add: ex_defs toIValue_def)
  have k14: "known_devices (inputs (to_node 1 4)) ex_heap = []"
    by (simp add: ex_defs known_devices_def map_filter_simps)
  have pre: "\<forall>j<1. isDeviceArgumentType (arg_type (arguments to_op ! j)) \<longrightarrow>
      j < length (inputs (to_node s a)) \<and> toIValue (inputs (to_node s a) ! j) ex_heap = Some IVNone" for s a
    using d0 by simp
  have c7: "(1 < length (arguments to_op) \<and> isDeviceArgumentType (arg_type (arguments to_op ! 1)) \<and>
          1 < length (inputs (to_node 0 7)) \<and>
          (\<forall>j<1. isDeviceArgumentType (arg_type (arguments to_op ! j)) \<longrightarrow>
             j < length (inputs (to_node 0 7)) \<and> toIValue (inputs (to_node 0 7) ! j) ex_heap = Some IVNone) \<and>
          (toIValue (inputs (to_node 0 7) ! 1) ex_heap = None \<or>
           (\<exists>iv. toIValue (inputs (to_node 0 7) ! 1) ex_heap = Some iv \<and> iv \<noteq> IVNone \<and> (\<forall>d. iv \<noteq> IVDevice d))))
         \<or> ((\<forall>k<length (arguments to_op). isDeviceArgumentType (arg_type (arguments to_op ! k)) \<longrightarrow>
                k < length (inputs (to_node 0 7)) \<and> toIValue (inputs (to_node 0 7) ! k) ex_heap = Some IVNone) \<and>
             known_devices (inputs (to_node 0 7)) ex_heap = [])"
    using len(1) d1 li(1) [of 0 7] pre [of 0 7] v7 by blast
  have c8: "(1 < length (arguments to_op) \<and> isDeviceArgumentType (arg_type (arguments to_op ! 1)) \<and>
          1 < length (inputs (to_node 0 8)) \<and>
          (\<forall>j<1. isDeviceArgumentType (arg_type (arguments to_op ! j)) \<longrightarrow>
             j < length (inputs (to_node 0 8)) \<and> toIValue (inputs (to_node 0 8) ! j) ex_heap = Some IVNone) \<and>
          (toIValue (inputs (to_node 0 8) ! 1) ex_heap = None \<or>
           (\<exists>iv. toIValue (inputs (to_node 0 8) ! 1) ex_heap = Some iv \<and> iv \<noteq> IVNone \<and> (\<forall>d. iv \<noteq> IVDevice d))))
         \<or> ((\<forall>k<length (arguments to_op). isDeviceArgumentType (arg_type (arguments to_op ! k)) \<longrightarrow>
                k < length (inputs (to_node 0 8)) \<and> toIValue (inputs (to_node 0 8) ! k) ex_heap = Some IVNone) \<and>
             known_devices (inputs (to_node 0 8)) ex_heap = [])"
    using len(1) d1 li(1) [of 0 8] pre [of 0 8] v8 by auto
  have all4: "\<forall>k<length (arguments to_op). isDeviceArgumentType (arg_type (arguments to_op ! k)) \<longrightarrow>
                k < length (inputs (to_node 1 4)) \<and> toIValue (inputs (to_node 1 4) ! k) ex_heap = Some IVNone"
    using d0 v4 li(2) [of 1 4] by (simp add: len(2) less_Suc_eq numeral_2_eq_2)
  have c4: "(1 < length (arguments to_op) \<and> isDeviceArgumentType (arg_type (arguments to_op ! 1)) \<and>
          1 < length (inputs (to_node 1 4)) \<and>
          (\<forall>j<1. isDeviceArgumentType (arg_type (arguments to_op ! j)) \<longrightarrow>
             j < length (inputs (to_node 1 4)) \<and> toIValue (inputs (to_node 1 4) ! j) ex_heap = Some IVNone) \<and>
          (toIValue (inputs (to_node 1 4) ! 1) ex_heap = None \<or>
           (\<exists>iv. toIValue (inputs (to_node 1 4) ! 1) ex_heap = Some iv \<and> iv \<noteq> IVNone \<and> (\<forall>d. iv \<noteq> IVDevice d))))
         \<or> ((\<forall>k<length (arguments to_op). isDeviceArgumentType (arg_type (arguments to_op ! k)) \<longrightarrow>
                k < length (inputs (to_node 1 4)) \<and> toIValue (inputs (to_node 1 4) ! k) ex_heap = Some IVNone) \<and>
             known_devices (inputs (to_node 1 4)) ex_heap = [])"
    using all4 k14 by blast
  note r7 = C8_cannot_infer_is_no_change [OF at o reg c7, of "[add_node]" False]
  note r8 = C8_cannot_infer_is_no_change [OF at o reg c8, of "[add_node]" False]
  note r4 = C8_cannot_infer_is_no_change [OF at o reg c4, of "[add_node]" False]
  from r7 r8 r4 at [of 0 7] o [of 0 7] reg v7 v8 v4 k14 show ?thesis by blast
qed

end
